theory Spec2Isabelle
  imports Complex_Main "HOL-Library.Word"
begin

unbundle bit_operations_syntax

section \<open>Data model of \<^verbatim>\<open>src/App.tsx\<close>\<close>

text \<open>
  The component \<^verbatim>\<open>App\<close> keeps its state in React \<^verbatim>\<open>useState\<close> cells and
  \<^verbatim>\<open>useRef\<close> boxes. Every handler is modelled as a function from the state before the
  call to the state after it; a value read from the platform (the clock, the outcome of a
  \<^verbatim>\<open>connect\<close>) is a parameter of the handler.

  A handler is a closure of the render that created it: the \<^verbatim>\<open>useState\<close> cells that it
  reads have the values of that render, while a \<^verbatim>\<open>useRef\<close> box always has its current
  content. \<^verbatim>\<open>togglePlay\<close> and \<^verbatim>\<open>applyFilters\<close> are also called from callbacks that an
  effect registered in an earlier render (the MIDI callback, installed when \<^verbatim>\<open>midiMap\<close>
  changes; the \<^verbatim>\<open>ready\<close> callback of a transport, installed at mount). They take the
  state \<open>r\<close> of the render that created the closure as their first argument, from which
  they read the \<^verbatim>\<open>useState\<close> cells only, and the current state \<open>s\<close>, from which they
  read the refs and the audio graph. A call from the current render is \<open>f s \<dots> s\<close>.
  \<^verbatim>\<open>tapTempo\<close>, \<^verbatim>\<open>setTempo\<close>, \<^verbatim>\<open>syncTempo\<close> and \<^verbatim>\<open>setEQ\<close> are called from the
  elements of the current render only; \<^verbatim>\<open>toggleRecord\<close> is modelled as called from the
  record button of the current render.

  JavaScript numbers are modelled as \<open>real\<close>; \<^verbatim>\<open>Math.round x\<close> is
  \<open>\<lfloor>x + 1/2\<rfloor>\<close>, which is \<^const>\<open>round\<close>.
\<close>

datatype DeckId = DeckA | DeckB

datatype FxKey = FxReverb | FxDelay | FxFilter | FxGate

datatype BiquadFilterType =
  lowpass | highpass | bandpass | lowshelf | highshelf | peaking | notch | allpass

record MidiMap =
  deckAPlay :: int
  deckBPlay :: int
  crossfader :: int
  master :: int
  fxAReverb :: int
  fxADelay :: int
  fxAFilter :: int
  fxAGate :: int
  fxBReverb :: int
  fxBDelay :: int
  fxBFilter :: int
  fxBGate :: int
  recordToggle :: int

definition DEFAULT_MIDI :: MidiMap where
  "DEFAULT_MIDI = \<lparr> deckAPlay = 60, deckBPlay = 62, crossfader = 1, master = 7,
     fxAReverb = 20, fxADelay = 21, fxAFilter = 22, fxAGate = 23,
     fxBReverb = 24, fxBDelay = 25, fxBFilter = 26, fxBGate = 27,
     recordToggle = 40 \<rparr>"

text \<open>The second entry of \<^verbatim>\<open>DEFAULT_PRESETS\<close>: \<^verbatim>\<open>{...DEFAULT_MIDI, fxAReverb: 36, ...}\<close>.\<close>

definition COMPACT_MIDI :: MidiMap where
  "COMPACT_MIDI = DEFAULT_MIDI \<lparr> fxAReverb := 36, fxADelay := 37, fxAFilter := 38,
     fxAGate := 39, fxBReverb := 40, fxBDelay := 41, fxBFilter := 42, fxBGate := 43 \<rparr>"

definition DEFAULT_PRESETS :: "(string \<times> MidiMap) list" where
  "DEFAULT_PRESETS = [(''Default'', DEFAULT_MIDI), (''Compact'', COMPACT_MIDI)]"

subsection \<open>The audio objects\<close>

text \<open>
  An audio node is an object: it lives in a store (\<open>heap\<close>) under a handle, and
  \<^verbatim>\<open>DeckNodes\<close> and the transport's filter chain hold handles. A handle is allocated
  from the counter \<open>nextId\<close>. The impulse response of \<^verbatim>\<open>createImpulse\<close> is random
  noise; only its two arguments are kept.
\<close>

datatype AudioContext = AudioContext nat

datatype AudioBuffer = Impulse real real

datatype AudioNode =
    BiquadFilterNode BiquadFilterType real real real
      \<comment> \<open>type, frequency, Q, gain\<close>
  | DelayNode real
      \<comment> \<open>delayTime\<close>
  | GainNode real
      \<comment> \<open>gain\<close>
  | ConvolverNode "AudioBuffer option"
      \<comment> \<open>buffer\<close>
  | DynamicsCompressorNode real real real real
      \<comment> \<open>threshold, ratio, attack, release\<close>
  | MediaStreamAudioDestinationNode

record DeckNodes =
  eq :: "(BiquadFilterType \<times> nat) list"
    \<comment> \<open>a JavaScript object: string keys are kept in insertion order\<close>
  filter_node :: "nat option"
  delay :: "nat option"
  delayFeedback :: "nat option"
  reverb :: "nat option"
  gate :: "nat option"
  analyser :: "nat option"

text \<open>What the code uses of a WaveSurfer instance.\<close>

record WaveSurfer =
  backend_ac :: "AudioContext option"
    \<comment> \<open>\<^verbatim>\<open>(wave as any).backend?.ac\<close>\<close>
  isPlaying :: bool
  currentTime :: real
  duration :: real
  playbackRate :: real
  filters :: "nat list"
    \<comment> \<open>the chain last given to \<^verbatim>\<open>setFilters\<close>\<close>

datatype RecorderState = inactive | recording_state

record MediaRecorder =
  stream_of :: nat
    \<comment> \<open>the capture sink the recorder reads\<close>
  rec_state :: RecorderState

record App =
  waveARef :: "WaveSurfer option"
  waveBRef :: "WaveSurfer option"
  audioCtxRef :: "AudioContext option"
  nodesRef :: "DeckId \<Rightarrow> DeckNodes"
  heap :: "nat \<rightharpoonup> AudioNode"
  nextId :: nat
  beatSnap :: bool
  bpmA :: "real option"
  bpmB :: "real option"
  tempoA :: real
  tempoB :: real
  fxA :: "FxKey \<Rightarrow> bool"
  fxB :: "FxKey \<Rightarrow> bool"
  wetA :: "FxKey \<Rightarrow> real"
  wetB :: "FxKey \<Rightarrow> real"
  recording :: bool
  recordedUrl :: "nat list option"
    \<comment> \<open>the blob made of the recorded chunks\<close>
  recorderRef :: "MediaRecorder option"
  recordChunksRef :: "nat list"
  lastTap :: real

text \<open>The state of the first render, before the mount effect has created the transports.\<close>

definition initial :: App where
  "initial = \<lparr> waveARef = None, waveBRef = None, audioCtxRef = None,
     nodesRef = (\<lambda>_. \<lparr> eq = [], filter_node = None, delay = None, delayFeedback = None,
                        reverb = None, gate = None, analyser = None \<rparr>),
     heap = Map.empty, nextId = 0, beatSnap = True, bpmA = None, bpmB = None,
     tempoA = 1, tempoB = 1,
     fxA = (\<lambda>_. False), fxB = (\<lambda>_. False),
     wetA = (\<lambda>k. case k of FxReverb \<Rightarrow> 0.35 | FxDelay \<Rightarrow> 0.25 | FxFilter \<Rightarrow> 0.5 | FxGate \<Rightarrow> 0.5),
     wetB = (\<lambda>k. case k of FxReverb \<Rightarrow> 0.35 | FxDelay \<Rightarrow> 0.25 | FxFilter \<Rightarrow> 0.5 | FxGate \<Rightarrow> 0.5),
     recording = False, recordedUrl = None, recorderRef = None, recordChunksRef = [],
     lastTap = 0 \<rparr>"

text \<open>The selections \<^verbatim>\<open>deck === "A" ? xA : xB\<close>.\<close>

definition wave_of :: "App \<Rightarrow> DeckId \<Rightarrow> WaveSurfer option" where
  "wave_of s deck = (case deck of DeckA \<Rightarrow> waveARef s | DeckB \<Rightarrow> waveBRef s)"

definition set_wave :: "DeckId \<Rightarrow> WaveSurfer \<Rightarrow> App \<Rightarrow> App" where
  "set_wave deck w s =
     (case deck of DeckA \<Rightarrow> s\<lparr>waveARef := Some w\<rparr> | DeckB \<Rightarrow> s\<lparr>waveBRef := Some w\<rparr>)"

definition bpm_of :: "App \<Rightarrow> DeckId \<Rightarrow> real option" where
  "bpm_of s deck = (case deck of DeckA \<Rightarrow> bpmA s | DeckB \<Rightarrow> bpmB s)"

definition tempo_of :: "App \<Rightarrow> DeckId \<Rightarrow> real" where
  "tempo_of s deck = (case deck of DeckA \<Rightarrow> tempoA s | DeckB \<Rightarrow> tempoB s)"

definition fx_of :: "App \<Rightarrow> DeckId \<Rightarrow> FxKey \<Rightarrow> bool" where
  "fx_of s deck = (case deck of DeckA \<Rightarrow> fxA s | DeckB \<Rightarrow> fxB s)"

definition wet_of :: "App \<Rightarrow> DeckId \<Rightarrow> FxKey \<Rightarrow> real" where
  "wet_of s deck = (case deck of DeckA \<Rightarrow> wetA s | DeckB \<Rightarrow> wetB s)"

definition other :: "DeckId \<Rightarrow> DeckId" where
  "other deck = (case deck of DeckA \<Rightarrow> DeckB | DeckB \<Rightarrow> DeckA)"

text \<open>
  \<^verbatim>\<open>!bpm\<close> on a \<^verbatim>\<open>number | null\<close>: true for \<^verbatim>\<open>null\<close> and for 0.
\<close>

definition falsy :: "real option \<Rightarrow> bool" where
  "falsy v = (case v of None \<Rightarrow> True | Some x \<Rightarrow> x = 0)"

section \<open>Tempo: \<^verbatim>\<open>playClick\<close>, \<^verbatim>\<open>tapTempo\<close>, \<^verbatim>\<open>setTempo\<close>, \<^verbatim>\<open>syncTempo\<close>, \<^verbatim>\<open>togglePlay\<close>\<close>

text \<open>
  \<^verbatim>\<open>playClick\<close> creates an audio context when \<^verbatim>\<open>audioCtxRef\<close> is empty and plays
  a short oscillator sound, of which no reference is kept.
\<close>

definition playClick :: "App \<Rightarrow> App" where
  "playClick s =
     (case audioCtxRef s of
        Some ac \<Rightarrow> s
      | None \<Rightarrow> s\<lparr>audioCtxRef := Some (AudioContext (nextId s)), nextId := Suc (nextId s)\<rparr>)"

text \<open>\<open>now\<close> is the value of \<^verbatim>\<open>performance.now()\<close>, in milliseconds.\<close>

definition tapTempo :: "DeckId \<Rightarrow> real \<Rightarrow> App \<Rightarrow> App" where
  "tapTempo deck now s =
     (if lastTap s = 0 then s\<lparr>lastTap := now\<rparr>
      else
        let interval = now - lastTap s;
            s1 = s\<lparr>lastTap := now\<rparr>
        in if interval < 250 \<or> interval > 2000 then s1
           else
             let bpm = 60000 / interval;
                 s2 = (case deck of
                         DeckA \<Rightarrow> s1\<lparr>bpmA := Some (of_int (round bpm))\<rparr>
                       | DeckB \<Rightarrow> s1\<lparr>bpmB := Some (of_int (round bpm))\<rparr>)
             in playClick s2)"

definition setTempo :: "DeckId \<Rightarrow> real \<Rightarrow> App \<Rightarrow> App" where
  "setTempo deck v s =
     (case wave_of s deck of
        None \<Rightarrow> s
      | Some wave \<Rightarrow>
          let s1 = set_wave deck (wave\<lparr>playbackRate := v\<rparr>) s
          in (case deck of DeckA \<Rightarrow> s1\<lparr>tempoA := v\<rparr> | DeckB \<Rightarrow> s1\<lparr>tempoB := v\<rparr>))"

definition syncTempo :: "DeckId \<Rightarrow> App \<Rightarrow> App" where
  "syncTempo deck s =
     (let sourceBpm = bpm_of s (other deck);
          targetBpm = bpm_of s deck
      in if falsy sourceBpm \<or> falsy targetBpm then s
         else
           let ratio = the sourceBpm / the targetBpm
           in playClick (setTempo deck (min 1.5 (max 0.6 ratio)) s))"

text \<open>
  \<^verbatim>\<open>togglePlay\<close> reads \<^verbatim>\<open>bpmA\<close>, \<^verbatim>\<open>bpmB\<close> and \<^verbatim>\<open>beatSnap\<close> from the render \<open>r\<close>
  that created it, and the transport from the ref.
\<close>

definition togglePlay :: "App \<Rightarrow> DeckId \<Rightarrow> App \<Rightarrow> App" where
  "togglePlay r deck s =
     (case wave_of s deck of
        None \<Rightarrow> s
      | Some wave \<Rightarrow>
          let bpm = bpm_of r deck;
              wave1 =
                (if \<not> isPlaying wave \<and> beatSnap r \<and> \<not> falsy bpm then
                   let beat = 60 / the bpm;
                       t = currentTime wave;
                       snapped = of_int (round (t / beat)) * beat
                   in wave\<lparr>currentTime := max 0 (min snapped (duration wave))\<rparr>
                 else wave);
              wave2 = wave1\<lparr>isPlaying := \<not> isPlaying wave1\<rparr>
          in playClick (set_wave deck wave2 s))"

section \<open>MIDI dispatch: \<^verbatim>\<open>input.onmidimessage\<close>\<close>

text \<open>
  The callback does nothing but call handlers, so it is modelled by the list of the calls
  it makes, in the order of the source: an empty list is a message that changes nothing.
  A byte of the \<^verbatim>\<open>Uint8Array\<close> is an \<open>8 word\<close>; the codes of the map are
  JavaScript numbers, compared with \<^verbatim>\<open>===\<close>.
\<close>

datatype HandlerCall =
    Call_togglePlay DeckId
  | Call_toggleFx DeckId FxKey
  | Call_toggleRecord
  | Call_setCrossfader int
  | Call_setMaster int

definition call_if :: "bool \<Rightarrow> 'a \<Rightarrow> 'a list" where
  "call_if c x = (if c then [x] else [])"

definition note_on_calls :: "MidiMap \<Rightarrow> int \<Rightarrow> HandlerCall list" where
  "note_on_calls midiMap data1 =
     call_if (data1 = deckAPlay midiMap) (Call_togglePlay DeckA)
   @ call_if (data1 = deckBPlay midiMap) (Call_togglePlay DeckB)
   @ call_if (data1 = fxAReverb midiMap) (Call_toggleFx DeckA FxReverb)
   @ call_if (data1 = fxADelay midiMap) (Call_toggleFx DeckA FxDelay)
   @ call_if (data1 = fxAFilter midiMap) (Call_toggleFx DeckA FxFilter)
   @ call_if (data1 = fxAGate midiMap) (Call_toggleFx DeckA FxGate)
   @ call_if (data1 = fxBReverb midiMap) (Call_toggleFx DeckB FxReverb)
   @ call_if (data1 = fxBDelay midiMap) (Call_toggleFx DeckB FxDelay)
   @ call_if (data1 = fxBFilter midiMap) (Call_toggleFx DeckB FxFilter)
   @ call_if (data1 = fxBGate midiMap) (Call_toggleFx DeckB FxGate)
   @ call_if (data1 = recordToggle midiMap) Call_toggleRecord"

definition control_change_calls :: "MidiMap \<Rightarrow> int \<Rightarrow> int \<Rightarrow> HandlerCall list" where
  "control_change_calls midiMap data1 data2 =
     call_if (data1 = crossfader midiMap) (Call_setCrossfader (round (real_of_int data2 / 127 * 100)))
   @ call_if (data1 = master midiMap) (Call_setMaster (round (real_of_int data2 / 127 * 100)))"

definition onmidimessage :: "MidiMap \<Rightarrow> 8 word list option \<Rightarrow> HandlerCall list" where
  "onmidimessage midiMap data =
     (case data of
        None \<Rightarrow> []
      | Some bytes \<Rightarrow>
          (case bytes of
             status # data1 # data2 # rest \<Rightarrow>
               let command = status AND 0xF0
               in (if command = 0x90 \<and> data2 > 0 then note_on_calls midiMap (uint data1) else [])
                  @ (if command = 0xB0
                     then control_change_calls midiMap (uint data1) (uint data2) else [])
           | _ \<Rightarrow> []))"

text \<open>The codes of the eleven actions that a note-on message can trigger.\<close>

definition note_codes :: "MidiMap \<Rightarrow> int list" where
  "note_codes midiMap =
     [deckAPlay midiMap, deckBPlay midiMap, fxAReverb midiMap, fxADelay midiMap,
      fxAFilter midiMap, fxAGate midiMap, fxBReverb midiMap, fxBDelay midiMap,
      fxBFilter midiMap, fxBGate midiMap, recordToggle midiMap]"

section \<open>Recording: \<^verbatim>\<open>toggleRecord\<close>\<close>

text \<open>
  \<open>connect_ok\<close> says whether \<^verbatim>\<open>source.connect(destination)\<close> returns; when it throws,
  the \<^verbatim>\<open>catch\<close> block returns from the handler. A chunk is modelled by its size.
  Stopping the recorder fires \<^verbatim>\<open>onstop\<close>, which publishes the blob of the chunks.
\<close>

definition record_ac :: "App \<Rightarrow> AudioContext option" where
  "record_ac s =
     (case waveARef s of
        None \<Rightarrow> audioCtxRef s
      | Some wave \<Rightarrow> (case backend_ac wave of Some ac \<Rightarrow> Some ac | None \<Rightarrow> audioCtxRef s))"

definition stop_recorder :: "App \<Rightarrow> App" where
  "stop_recorder s =
     (case recorderRef s of
        None \<Rightarrow> s
      | Some r \<Rightarrow>
          if rec_state r = recording_state
          then s\<lparr>recorderRef := Some (r\<lparr>rec_state := inactive\<rparr>),
                 recordedUrl := Some (recordChunksRef s)\<rparr>
          else s)"

definition ondataavailable :: "nat \<Rightarrow> App \<Rightarrow> App" where
  "ondataavailable chunk s =
     (if chunk > 0 then s\<lparr>recordChunksRef := recordChunksRef s @ [chunk]\<rparr> else s)"

definition toggleRecord :: "bool \<Rightarrow> App \<Rightarrow> App" where
  "toggleRecord connect_ok s =
     (case record_ac s of
        None \<Rightarrow> s
      | Some ac \<Rightarrow>
          if recording s then playClick ((stop_recorder s)\<lparr>recording := False\<rparr>)
          else
            let destination = nextId s;
                s1 = s\<lparr>heap := (heap s)(destination \<mapsto> MediaStreamAudioDestinationNode),
                       nextId := Suc destination\<rparr>
            in if \<not> connect_ok then s1
               else playClick
                      (s1\<lparr>recorderRef := Some \<lparr>stream_of = destination, rec_state = recording_state\<rparr>,
                          recordChunksRef := [],
                          recording := True\<rparr>))"

section \<open>The deck graph: \<^verbatim>\<open>ensureNodes\<close>, \<^verbatim>\<open>createEQFilter\<close>, \<^verbatim>\<open>setEQ\<close>, \<^verbatim>\<open>applyFilters\<close>\<close>

text \<open>
  \<open>create n s\<close> stores a new node under the handle \<open>nextId s\<close>. \<open>poke h f s\<close> is a
  write to a parameter of the node under \<open>h\<close>. A parameter setter leaves a node of
  another class as it is; the source never calls one on such a node.
\<close>

definition create :: "AudioNode \<Rightarrow> App \<Rightarrow> App" where
  "create n s = s\<lparr>heap := (heap s)(nextId s \<mapsto> n), nextId := Suc (nextId s)\<rparr>"

definition poke :: "nat \<Rightarrow> (AudioNode \<Rightarrow> AudioNode) \<Rightarrow> App \<Rightarrow> App" where
  "poke h f s = s\<lparr>heap := (heap s)(h := map_option f (heap s h))\<rparr>"

definition upd_nodes :: "DeckId \<Rightarrow> (DeckNodes \<Rightarrow> DeckNodes) \<Rightarrow> App \<Rightarrow> App" where
  "upd_nodes deck f s = s\<lparr>nodesRef := (nodesRef s)(deck := f (nodesRef s deck))\<rparr>"

fun set_threshold :: "real \<Rightarrow> AudioNode \<Rightarrow> AudioNode" where
  "set_threshold v (DynamicsCompressorNode t r a rl) = DynamicsCompressorNode v r a rl"
| "set_threshold v n = n"

fun set_frequency :: "real \<Rightarrow> AudioNode \<Rightarrow> AudioNode" where
  "set_frequency v (BiquadFilterNode t f q g) = BiquadFilterNode t v q g"
| "set_frequency v n = n"

fun set_delayTime :: "real \<Rightarrow> AudioNode \<Rightarrow> AudioNode" where
  "set_delayTime v (DelayNode t) = DelayNode v"
| "set_delayTime v n = n"

fun set_gain :: "real \<Rightarrow> AudioNode \<Rightarrow> AudioNode" where
  "set_gain v (GainNode g) = GainNode v"
| "set_gain v (BiquadFilterNode t f q g) = BiquadFilterNode t f q v"
| "set_gain v n = n"

text \<open>\<^verbatim>\<open>nodes.reverb.buffer\<close> as a condition.\<close>

definition has_buffer :: "App \<Rightarrow> nat \<Rightarrow> bool" where
  "has_buffer s h = (case heap s h of Some (ConvolverNode (Some b)) \<Rightarrow> True | _ \<Rightarrow> False)"

text \<open>
  The four blocks of \<^verbatim>\<open>ensureNodes\<close>, one definition each. A node is written with the
  parameters it has at the end of its block; a parameter the block does not set has the
  default of the Web Audio API (gain 0 of a biquad filter).
\<close>

definition ensure_filter :: "DeckId \<Rightarrow> App \<Rightarrow> App" where
  "ensure_filter deck s =
     (case filter_node (nodesRef s deck) of
        Some h \<Rightarrow> s
      | None \<Rightarrow>
          upd_nodes deck (\<lambda>n. n\<lparr>filter_node := Some (nextId s)\<rparr>)
            (create (BiquadFilterNode lowpass 8000 0.6 0) s))"

definition ensure_delay :: "DeckId \<Rightarrow> App \<Rightarrow> App" where
  "ensure_delay deck s =
     (case delay (nodesRef s deck) of
        Some h \<Rightarrow> s
      | None \<Rightarrow>
          let s1 = upd_nodes deck (\<lambda>n. n\<lparr>delay := Some (nextId s)\<rparr>) (create (DelayNode 0.25) s)
          in upd_nodes deck (\<lambda>n. n\<lparr>delayFeedback := Some (nextId s1)\<rparr>)
               (create (GainNode 0.35) s1))"

definition ensure_reverb :: "DeckId \<Rightarrow> App \<Rightarrow> App" where
  "ensure_reverb deck s =
     (case reverb (nodesRef s deck) of
        Some h \<Rightarrow> s
      | None \<Rightarrow>
          upd_nodes deck (\<lambda>n. n\<lparr>reverb := Some (nextId s)\<rparr>)
            (create (ConvolverNode (Some (Impulse 1.3 2.3))) s))"

definition ensure_gate :: "DeckId \<Rightarrow> App \<Rightarrow> App" where
  "ensure_gate deck s =
     (case gate (nodesRef s deck) of
        Some h \<Rightarrow> s
      | None \<Rightarrow>
          upd_nodes deck (\<lambda>n. n\<lparr>gate := Some (nextId s)\<rparr>)
            (create (DynamicsCompressorNode (- 40) 12 0.003 0.2) s))"

text \<open>
  \<open>None\<close> is the result \<^verbatim>\<open>null\<close>: no audio context yet, nothing changed. \<open>Some s'\<close>
  is the state after the call, the node set returned being \<open>nodesRef s' deck\<close>.
\<close>

definition ensureNodes :: "DeckId \<Rightarrow> WaveSurfer \<Rightarrow> App \<Rightarrow> App option" where
  "ensureNodes deck wave s =
     (case backend_ac wave of
        None \<Rightarrow> None
      | Some ac \<Rightarrow>
          Some (ensure_gate deck (ensure_reverb deck (ensure_delay deck (ensure_filter deck
                  (s\<lparr>audioCtxRef := Some ac\<rparr>))))))"

datatype error = AudioContext_missing

text \<open>The handle of the filter created by \<open>createEQFilter type s\<close> is \<open>nextId s\<close>.\<close>

definition createEQFilter :: "BiquadFilterType \<Rightarrow> App \<Rightarrow> error + App" where
  "createEQFilter type s =
     (case audioCtxRef s of
        None \<Rightarrow> Inl AudioContext_missing
      | Some ac \<Rightarrow>
          Inr (create (BiquadFilterNode type
                 (if type = lowshelf then 150 else if type = highshelf then 6000 else 1000) 1 0) s))"

text \<open>
  The steps of \<^verbatim>\<open>applyFilters\<close> between \<^verbatim>\<open>const chain = []\<close> and
  \<^verbatim>\<open>setFilters(chain)\<close>, each on the pair of the chain so far and the state.
  \<^verbatim>\<open>fxState\<close> and \<^verbatim>\<open>wet\<close> are the cells \<^verbatim>\<open>fxA\<close>, \<^verbatim>\<open>fxB\<close>, \<^verbatim>\<open>wetA\<close>, \<^verbatim>\<open>wetB\<close> of the
  render \<open>r\<close> that created the closure; \<^verbatim>\<open>nodesRef\<close> and the nodes are current.
\<close>

definition stage_gate :: "App \<Rightarrow> DeckId \<Rightarrow> nat list \<times> App \<Rightarrow> nat list \<times> App" where
  "stage_gate r deck cs =
     (case cs of (chain, s) \<Rightarrow>
        (case gate (nodesRef s deck) of
           Some h \<Rightarrow>
             if fx_of r deck FxGate
             then (chain @ [h], poke h (set_threshold (- 50 + wet_of r deck FxGate * 30)) s)
             else (chain, s)
         | None \<Rightarrow> (chain, s)))"

definition stage_eq :: "DeckId \<Rightarrow> nat list \<times> App \<Rightarrow> nat list \<times> App" where
  "stage_eq deck cs =
     (case cs of (chain, s) \<Rightarrow> (chain @ map snd (eq (nodesRef s deck)), s))"

definition stage_filter :: "App \<Rightarrow> DeckId \<Rightarrow> nat list \<times> App \<Rightarrow> nat list \<times> App" where
  "stage_filter r deck cs =
     (case cs of (chain, s) \<Rightarrow>
        (case filter_node (nodesRef s deck) of
           Some h \<Rightarrow>
             if fx_of r deck FxFilter
             then (chain @ [h], poke h (set_frequency (500 + wet_of r deck FxFilter * 7500)) s)
             else (chain, s)
         | None \<Rightarrow> (chain, s)))"

definition stage_delay :: "App \<Rightarrow> DeckId \<Rightarrow> nat list \<times> App \<Rightarrow> nat list \<times> App" where
  "stage_delay r deck cs =
     (case cs of (chain, s) \<Rightarrow>
        (case delay (nodesRef s deck) of
           Some h \<Rightarrow>
             if fx_of r deck FxDelay
             then
               let s1 = poke h (set_delayTime (0.05 + wet_of r deck FxDelay * 0.45)) s;
                   s2 = (case delayFeedback (nodesRef s1 deck) of
                           Some fb \<Rightarrow> poke fb (set_gain (0.1 + wet_of r deck FxDelay * 0.6)) s1
                         | None \<Rightarrow> s1)
               in (chain @ [h], s2)
             else (chain, s)
         | None \<Rightarrow> (chain, s)))"

definition stage_reverb :: "App \<Rightarrow> DeckId \<Rightarrow> nat list \<times> App \<Rightarrow> nat list \<times> App" where
  "stage_reverb r deck cs =
     (case cs of (chain, s) \<Rightarrow>
        (case reverb (nodesRef s deck) of
           Some h \<Rightarrow>
             if fx_of r deck FxReverb
             then (if has_buffer s h then (chain @ [h], s) else (chain, s))
             else (chain, s)
         | None \<Rightarrow> (chain, s)))"

definition applyFilters :: "App \<Rightarrow> DeckId \<Rightarrow> App \<Rightarrow> App" where
  "applyFilters r deck s =
     (case wave_of s deck of
        None \<Rightarrow> s
      | Some wave \<Rightarrow>
          (case ensureNodes deck wave s of
             None \<Rightarrow> s
           | Some s1 \<Rightarrow>
               (case stage_reverb r deck (stage_delay r deck (stage_filter r deck
                       (stage_eq deck (stage_gate r deck ([], s1))))) of
                  (chain, s2) \<Rightarrow> set_wave deck (wave\<lparr>filters := chain\<rparr>) s2)))"

text \<open>
  \<^verbatim>\<open>setEQ\<close> reads no \<^verbatim>\<open>useState\<close> cell itself and changes none, so the state in
  which an EQ knob of the current render calls it is the render of the
  \<^verbatim>\<open>applyFilters\<close> that it calls.
\<close>

definition setEQ :: "DeckId \<Rightarrow> BiquadFilterType \<Rightarrow> real \<Rightarrow> App \<Rightarrow> error + App" where
  "setEQ deck type v s =
     (case wave_of s deck of
        None \<Rightarrow> Inr s
      | Some wave \<Rightarrow>
          (case ensureNodes deck wave s of
             None \<Rightarrow> Inr s
           | Some s1 \<Rightarrow>
               (case map_of (eq (nodesRef s1 deck)) type of
                  Some h \<Rightarrow> Inr (applyFilters s deck (poke h (set_gain v) s1))
                | None \<Rightarrow>
                    (case createEQFilter type s1 of
                       Inl e \<Rightarrow> Inl e
                     | Inr s2 \<Rightarrow>
                         let h = nextId s1;
                             s3 = upd_nodes deck (\<lambda>n. n\<lparr>eq := eq n @ [(type, h)]\<rparr>) s2
                         in Inr (applyFilters s deck (poke h (set_gain v) s3))))))"

subsection \<open>The effect toggles and the effect that follows them\<close>

definition toggleFx :: "DeckId \<Rightarrow> FxKey \<Rightarrow> App \<Rightarrow> App" where
  "toggleFx deck key s =
     (case deck of
        DeckA \<Rightarrow> s\<lparr>fxA := (fxA s)(key := \<not> fxA s key)\<rparr>
      | DeckB \<Rightarrow> s\<lparr>fxB := (fxB s)(key := \<not> fxB s key)\<rparr>)"

text \<open>The wet knobs call \<^verbatim>\<open>setWetA((prev) => ({...prev, [key]: value}))\<close> in place.\<close>

definition setWet :: "DeckId \<Rightarrow> FxKey \<Rightarrow> real \<Rightarrow> App \<Rightarrow> App" where
  "setWet deck key v s =
     (case deck of
        DeckA \<Rightarrow> s\<lparr>wetA := (wetA s)(key := v)\<rparr>
      | DeckB \<Rightarrow> s\<lparr>wetB := (wetB s)(key := v)\<rparr>)"

text \<open>
  \<^verbatim>\<open>useEffect(() => { applyFilters("A"); applyFilters("B"); }, [fxA, fxB, wetA, wetB])\<close>
  runs after every render that follows a change of one of the four cells, with the
  \<^verbatim>\<open>applyFilters\<close> of that render.
\<close>

definition fx_effect :: "App \<Rightarrow> App" where
  "fx_effect s = applyFilters s DeckB (applyFilters s DeckA s)"

text \<open>A history of the operations on the effect state, run from left to right.\<close>

datatype Op =
    ToggleFx DeckId FxKey
  | SetWet DeckId FxKey real
  | SetEQ DeckId BiquadFilterType real

fun step :: "App \<Rightarrow> Op \<Rightarrow> error + App" where
  "step s (ToggleFx deck key) = Inr (fx_effect (toggleFx deck key s))"
| "step s (SetWet deck key v) = Inr (fx_effect (setWet deck key v s))"
| "step s (SetEQ deck type v) = setEQ deck type v s"

fun run :: "App \<Rightarrow> Op list \<Rightarrow> error + App" where
  "run s [] = Inr s"
| "run s (op # ops) = (case step s op of Inl e \<Rightarrow> Inl e | Inr s' \<Rightarrow> run s' ops)"

section \<open>Concrete states\<close>

text \<open>
  A transport as the mount effect creates it, with a Web Audio backend, and the state
  \<open>loaded\<close> in which both decks have one.
\<close>

definition deck0 :: WaveSurfer where
  "deck0 = \<lparr> backend_ac = Some (AudioContext 0), isPlaying = False, currentTime = 0,
     duration = 180, playbackRate = 1, filters = [] \<rparr>"

definition loaded :: App where
  "loaded = initial \<lparr> waveARef := Some deck0, waveBRef := Some deck0, nextId := 1 \<rparr>"

definition realized_A :: App where
  "realized_A = applyFilters loaded DeckA loaded"

section \<open>Notions for the properties of the deck graph\<close>

subsection \<open>Slots, stage order and the order of first touch\<close>

text \<open>
  A slot is a place of \<^verbatim>\<open>DeckNodes\<close> that holds a stage handle; \<open>slot_handle\<close> reads
  it. \<open>stage_order fx eqs\<close> is the order of stages of the design: the gate if enabled,
  the EQ stages \<open>eqs\<close>, the resonant filter, the delay and the reverb if enabled.
  \<open>first_touch\<close> keeps the first occurrence of every element of a list, and
  \<open>eq_touches deck ops\<close> lists the EQ types that a history sets on a deck.
\<close>

datatype Slot = SGate | SEq BiquadFilterType | SFilter | SDelay | SDelayFeedback | SReverb

fun slot_handle :: "DeckNodes \<Rightarrow> Slot \<Rightarrow> nat option" where
  "slot_handle n SGate = gate n"
| "slot_handle n (SEq t) = map_of (eq n) t"
| "slot_handle n SFilter = filter_node n"
| "slot_handle n SDelay = delay n"
| "slot_handle n SDelayFeedback = delayFeedback n"
| "slot_handle n SReverb = reverb n"

definition stage_order :: "(FxKey \<Rightarrow> bool) \<Rightarrow> BiquadFilterType list \<Rightarrow> Slot list" where
  "stage_order fx eqs =
     (if fx FxGate then [SGate] else []) @ map SEq eqs
     @ (if fx FxFilter then [SFilter] else [])
     @ (if fx FxDelay then [SDelay] else [])
     @ (if fx FxReverb then [SReverb] else [])"

fun first_touch :: "'a list \<Rightarrow> 'a list" where
  "first_touch [] = []"
| "first_touch (x # xs) = x # removeAll x (first_touch xs)"

fun eq_touches :: "DeckId \<Rightarrow> Op list \<Rightarrow> BiquadFilterType list" where
  "eq_touches d [] = []"
| "eq_touches d (SetEQ d' t v # ops) = (if d' = d then t # eq_touches d ops else eq_touches d ops)"
| "eq_touches d (ToggleFx d' k # ops) = eq_touches d ops"
| "eq_touches d (SetWet d' k v # ops) = eq_touches d ops"

subsection \<open>Well-formed graphs\<close>

text \<open>
  In a well-formed state every handle of a deck is allocated (below \<open>nextId\<close>), no two
  slots of a deck share a handle, the node under a handle has the class of its slot, the
  reverb has its impulse response, and the delay and its feedback gain exist together.
  The first render is well-formed and every operation on the graph keeps states so.
\<close>

datatype NodeClass = CBiquad | CDelay | CGain | CConvolver | CCompressor | CDestination

fun class_of :: "AudioNode \<Rightarrow> NodeClass" where
  "class_of (BiquadFilterNode t f q g) = CBiquad"
| "class_of (DelayNode t) = CDelay"
| "class_of (GainNode g) = CGain"
| "class_of (ConvolverNode b) = CConvolver"
| "class_of (DynamicsCompressorNode t r a rl) = CCompressor"
| "class_of MediaStreamAudioDestinationNode = CDestination"

fun slot_class :: "Slot \<Rightarrow> NodeClass" where
  "slot_class SGate = CCompressor"
| "slot_class (SEq t) = CBiquad"
| "slot_class SFilter = CBiquad"
| "slot_class SDelay = CDelay"
| "slot_class SDelayFeedback = CGain"
| "slot_class SReverb = CConvolver"

definition opt_slot :: "Slot \<Rightarrow> nat option \<Rightarrow> (Slot \<times> nat) list" where
  "opt_slot sl ho = (case ho of None \<Rightarrow> [] | Some h \<Rightarrow> [(sl, h)])"

definition slots :: "DeckNodes \<Rightarrow> (Slot \<times> nat) list" where
  "slots n =
     opt_slot SGate (gate n) @ map (\<lambda>(t, h). (SEq t, h)) (eq n)
     @ opt_slot SFilter (filter_node n) @ opt_slot SDelay (delay n)
     @ opt_slot SDelayFeedback (delayFeedback n) @ opt_slot SReverb (reverb n)"

definition slot_ok :: "App \<Rightarrow> Slot \<times> nat \<Rightarrow> bool" where
  "slot_ok s p =
     (case p of (sl, h) \<Rightarrow>
        h < nextId s
        \<and> map_option class_of (heap s h) = Some (slot_class sl)
        \<and> (sl = SReverb \<longrightarrow> has_buffer s h))"

definition deck_core :: "App \<Rightarrow> DeckId \<Rightarrow> bool" where
  "deck_core s d =
     (distinct (map fst (slots (nodesRef s d)))
      \<and> distinct (map snd (slots (nodesRef s d)))
      \<and> list_all (slot_ok s) (slots (nodesRef s d)))"

definition paired :: "DeckNodes \<Rightarrow> bool" where
  "paired n = ((delay n = None) = (delayFeedback n = None))"

definition deck_wf :: "App \<Rightarrow> DeckId \<Rightarrow> bool" where
  "deck_wf s d = (deck_core s d \<and> paired (nodesRef s d))"

definition wf :: "App \<Rightarrow> bool" where
  "wf s = (deck_wf s DeckA \<and> deck_wf s DeckB)"

subsection \<open>The steps of the operations, as used in the proofs\<close>

text \<open>
  \<open>install\<close> is the creation of a node followed by its assignment to an empty slot,
  which is what each block of \<^verbatim>\<open>ensureNodes\<close> and the creation branch of
  \<^verbatim>\<open>setEQ\<close> do. \<open>heap_ext s s'\<close> says that \<open>s'\<close> has kept the class and the impulse
  response of every node allocated in \<open>s\<close>; a \<open>setter\<close> is a parameter write, which
  does so. \<open>stable s s'\<close> collects what an operation preserves.
\<close>

fun set_slot :: "Slot \<Rightarrow> nat \<Rightarrow> DeckNodes \<Rightarrow> DeckNodes" where
  "set_slot SGate h n = n\<lparr>gate := Some h\<rparr>"
| "set_slot (SEq t) h n = n\<lparr>eq := eq n @ [(t, h)]\<rparr>"
| "set_slot SFilter h n = n\<lparr>filter_node := Some h\<rparr>"
| "set_slot SDelay h n = n\<lparr>delay := Some h\<rparr>"
| "set_slot SDelayFeedback h n = n\<lparr>delayFeedback := Some h\<rparr>"
| "set_slot SReverb h n = n\<lparr>reverb := Some h\<rparr>"

definition install :: "DeckId \<Rightarrow> Slot \<Rightarrow> AudioNode \<Rightarrow> App \<Rightarrow> App" where
  "install d sl node s = upd_nodes d (set_slot sl (nextId s)) (create node s)"

definition heap_ext :: "App \<Rightarrow> App \<Rightarrow> bool" where
  "heap_ext s s' =
     (nextId s \<le> nextId s'
      \<and> (\<forall>h < nextId s. map_option class_of (heap s' h) = map_option class_of (heap s h)
                        \<and> has_buffer s' h = has_buffer s h))"

definition setter :: "(AudioNode \<Rightarrow> AudioNode) \<Rightarrow> bool" where
  "setter f = (\<forall>n. class_of (f n) = class_of n \<and> (\<forall>b. f (ConvolverNode b) = ConvolverNode b))"

definition node_ok :: "Slot \<Rightarrow> AudioNode \<Rightarrow> bool" where
  "node_ok sl node = (class_of node = slot_class sl \<and> (sl = SReverb \<longrightarrow> (\<exists>b. node = ConvolverNode (Some b))))"

definition stable :: "App \<Rightarrow> App \<Rightarrow> bool" where
  "stable s s' =
     (heap_ext s s'
      \<and> (wf s \<longrightarrow> wf s'
           \<and> (\<forall>d sl h. slot_handle (nodesRef s d) sl = Some h \<longrightarrow>
                        slot_handle (nodesRef s' d) sl = Some h)))"

text \<open>
  The parameter writes of \<^verbatim>\<open>applyFilters\<close> in closed form: \<open>written deck s\<close> applies
  to the node under every handle \<open>k\<close> the writes \<open>writes_to deck s k\<close> that the four
  effect steps make to it, and \<open>chain_for deck s\<close> is the chain they build.
\<close>

definition rewritten :: "(nat \<Rightarrow> AudioNode \<Rightarrow> AudioNode) \<Rightarrow> App \<Rightarrow> App" where
  "rewritten F s = s\<lparr>heap := \<lambda>k. map_option (F k) (heap s k)\<rparr>"

definition gate_w :: "App \<Rightarrow> DeckId \<Rightarrow> App \<Rightarrow> nat \<Rightarrow> AudioNode \<Rightarrow> AudioNode" where
  "gate_w r d s k =
     (if fx_of r d FxGate \<and> gate (nodesRef s d) = Some k
      then set_threshold (- 50 + wet_of r d FxGate * 30) else id)"

definition filter_w :: "App \<Rightarrow> DeckId \<Rightarrow> App \<Rightarrow> nat \<Rightarrow> AudioNode \<Rightarrow> AudioNode" where
  "filter_w r d s k =
     (if fx_of r d FxFilter \<and> filter_node (nodesRef s d) = Some k
      then set_frequency (500 + wet_of r d FxFilter * 7500) else id)"

definition delay_w :: "App \<Rightarrow> DeckId \<Rightarrow> App \<Rightarrow> nat \<Rightarrow> AudioNode \<Rightarrow> AudioNode" where
  "delay_w r d s k =
     (if fx_of r d FxDelay \<and> delay (nodesRef s d) = Some k
      then set_delayTime (0.05 + wet_of r d FxDelay * 0.45) else id)"

definition feedback_w :: "App \<Rightarrow> DeckId \<Rightarrow> App \<Rightarrow> nat \<Rightarrow> AudioNode \<Rightarrow> AudioNode" where
  "feedback_w r d s k =
     (if fx_of r d FxDelay \<and> delay (nodesRef s d) \<noteq> None \<and> delayFeedback (nodesRef s d) = Some k
      then set_gain (0.1 + wet_of r d FxDelay * 0.6) else id)"

definition writes_to :: "App \<Rightarrow> DeckId \<Rightarrow> App \<Rightarrow> nat \<Rightarrow> AudioNode \<Rightarrow> AudioNode" where
  "writes_to r d s k = feedback_w r d s k \<circ> delay_w r d s k \<circ> filter_w r d s k \<circ> gate_w r d s k"

definition pick :: "bool \<Rightarrow> nat option \<Rightarrow> nat list" where
  "pick c ho = (case ho of Some h \<Rightarrow> if c then [h] else [] | None \<Rightarrow> [])"

definition chain_for :: "App \<Rightarrow> DeckId \<Rightarrow> App \<Rightarrow> nat list" where
  "chain_for r d s =
     pick (fx_of r d FxGate) (gate (nodesRef s d))
     @ map snd (eq (nodesRef s d))
     @ pick (fx_of r d FxFilter) (filter_node (nodesRef s d))
     @ pick (fx_of r d FxDelay) (delay (nodesRef s d))
     @ pick (fx_of r d FxReverb \<and> (\<exists>h. reverb (nodesRef s d) = Some h \<and> has_buffer s h))
         (reverb (nodesRef s d))"

definition written :: "App \<Rightarrow> DeckId \<Rightarrow> App \<Rightarrow> App" where
  "written r d s = rewritten (writes_to r d s) s"

definition ensured :: "DeckId \<Rightarrow> App \<Rightarrow> bool" where
  "ensured d s =
     (filter_node (nodesRef s d) \<noteq> None \<and> delay (nodesRef s d) \<noteq> None
      \<and> reverb (nodesRef s d) \<noteq> None \<and> gate (nodesRef s d) \<noteq> None)"

text \<open>
  The EQ stage that \<^verbatim>\<open>setEQ\<close> writes to: the one in the slot, or a new one. \<open>keys\<close>
  are the EQ types of a deck in the order of the \<^verbatim>\<open>eq\<close> object, \<open>touch\<close> adds a
  key at the end unless it is there, and a deck is \<open>ready\<close> when its transport has an
  audio context.
\<close>

definition eq_node :: "BiquadFilterType \<Rightarrow> AudioNode" where
  "eq_node t = BiquadFilterNode t (if t = lowshelf then 150 else if t = highshelf then 6000 else 1000) 1 0"

definition eq_installed :: "DeckId \<Rightarrow> BiquadFilterType \<Rightarrow> App \<Rightarrow> App" where
  "eq_installed d t s =
     (case map_of (eq (nodesRef s d)) t of Some h \<Rightarrow> s | None \<Rightarrow> install d (SEq t) (eq_node t) s)"

definition eq_handle :: "DeckId \<Rightarrow> BiquadFilterType \<Rightarrow> App \<Rightarrow> nat" where
  "eq_handle d t s = (case map_of (eq (nodesRef s d)) t of Some h \<Rightarrow> h | None \<Rightarrow> nextId s)"

definition touch :: "'a list \<Rightarrow> 'a \<Rightarrow> 'a list" where
  "touch ks t = (if t \<in> set ks then ks else ks @ [t])"

definition keys :: "DeckId \<Rightarrow> App \<Rightarrow> BiquadFilterType list" where
  "keys d s = map fst (eq (nodesRef s d))"

fun touched :: "DeckId \<Rightarrow> BiquadFilterType list \<Rightarrow> Op \<Rightarrow> BiquadFilterType list" where
  "touched d ks (SetEQ d' t v) = (if d' = d then touch ks t else ks)"
| "touched d ks (ToggleFx d' k) = ks"
| "touched d ks (SetWet d' k v) = ks"

definition ready :: "DeckId \<Rightarrow> App \<Rightarrow> bool" where
  "ready d s = (\<exists>w ac. wave_of s d = Some w \<and> backend_ac w = Some ac)"



section \<open>Properties of the tempo handlers\<close>

lemma initial_fields [simp]:
  "lastTap initial = 0"
  "recording initial = False"
  "recorderRef initial = None"
  "recordChunksRef initial = []"
  "waveARef initial = None"
  "waveBRef initial = None"
  "audioCtxRef initial = None"
  "bpmA initial = None"
  "bpmB initial = None"
  by (simp_all add: initial_def)

lemma playClick_fields [simp]:
  "lastTap (playClick s) = lastTap s"
  "bpmA (playClick s) = bpmA s"
  "bpmB (playClick s) = bpmB s"
  "tempoA (playClick s) = tempoA s"
  "tempoB (playClick s) = tempoB s"
  "waveARef (playClick s) = waveARef s"
  "waveBRef (playClick s) = waveBRef s"
  "recording (playClick s) = recording s"
  "recorderRef (playClick s) = recorderRef s"
  "recordChunksRef (playClick s) = recordChunksRef s"
  "recordedUrl (playClick s) = recordedUrl s"
  by (simp_all add: playClick_def split: option.splits)

lemma bpm_of_playClick [simp]: "bpm_of (playClick s) d = bpm_of s d"
  by (simp add: bpm_of_def split: DeckId.splits)

lemma wave_of_playClick [simp]: "wave_of (playClick s) d = wave_of s d"
  by (simp add: wave_of_def split: DeckId.splits)

lemma tempo_of_playClick [simp]: "tempo_of (playClick s) d = tempo_of s d"
  by (simp add: tempo_of_def split: DeckId.splits)

lemma wave_of_set_wave [simp]:
  "wave_of (set_wave d w s) d' = (if d' = d then Some w else wave_of s d')"
  by (cases d; cases d'; simp add: wave_of_def set_wave_def)

lemma lastTap_tapTempo: "lastTap (tapTempo d now s) = now"
  by (cases d) (simp_all add: tapTempo_def Let_def)

lemma setTempo_None: "wave_of s d = None \<Longrightarrow> setTempo d v s = s"
  by (simp add: setTempo_def)

lemma setTempo_Some:
  "wave_of s d = Some w \<Longrightarrow>
     tempo_of (setTempo d v s) d = v
     \<and> wave_of (setTempo d v s) d = Some (w\<lparr>playbackRate := v\<rparr>)"
  by (cases d) (simp_all add: setTempo_def Let_def tempo_of_def wave_of_def set_wave_def)

lemma clamp_rate: "(0.6::real) \<le> min 1.5 (max 0.6 r)" "min 1.5 (max 0.6 r) \<le> (1.5::real)"
  by (simp_all add: min_def max_def)

lemma syncTempo_in_range:
  assumes "0.6 \<le> tempo_of s d \<and> tempo_of s d \<le> 1.5"
  shows "0.6 \<le> tempo_of (syncTempo d s) d \<and> tempo_of (syncTempo d s) d \<le> 1.5"
proof (cases "falsy (bpm_of s (other d)) \<or> falsy (bpm_of s d)")
  case True
  then show ?thesis using assms by (simp add: syncTempo_def Let_def)
next
  case False
  let ?r = "min 1.5 (max 0.6 (the (bpm_of s (other d)) / the (bpm_of s d)))"
  have eq: "tempo_of (syncTempo d s) d = tempo_of (setTempo d ?r s) d"
    using False by (simp add: syncTempo_def Let_def)
  show ?thesis
  proof (cases "wave_of s d")
    case None
    then show ?thesis using assms eq by (simp add: setTempo_None)
  next
    case (Some w)
    then have "tempo_of (syncTempo d s) d = ?r"
      using eq by (simp add: setTempo_Some)
    then show ?thesis using clamp_rate [of "the (bpm_of s (other d)) / the (bpm_of s d)"] by simp
  qed
qed

lemma nearest_multiple:
  fixes t beat :: real
  assumes "beat \<noteq> 0"
  shows "\<bar>of_int (round (t / beat)) * beat - t\<bar> \<le> \<bar>of_int k * beat - t\<bar>"
proof -
  have "\<bar>t / beat - of_int (round (t / beat))\<bar> \<le> \<bar>t / beat - of_int k\<bar>"
    by (rule round_diff_minimal)
  then have "\<bar>beat\<bar> * \<bar>t / beat - of_int (round (t / beat))\<bar> \<le> \<bar>beat\<bar> * \<bar>t / beat - of_int k\<bar>"
    by (simp add: mult_left_mono)
  then have "\<bar>beat * (t / beat - of_int (round (t / beat)))\<bar> \<le> \<bar>beat * (t / beat - of_int k)\<bar>"
    by (simp only: abs_mult)
  then have "\<bar>t - beat * of_int (round (t / beat))\<bar> \<le> \<bar>t - beat * of_int k\<bar>"
    using assms by (simp add: right_diff_distrib)
  then show ?thesis by (simp add: abs_minus_commute mult.commute)
qed

text \<open>
  Claim C3. \<^verbatim>\<open>lastTap = 0\<close> is the code's test for "no tap yet". A first tap only stores
  its time. A later tap whose interval is below 250 ms or above 2000 ms only stores its
  time as well: no estimate changes. A later tap whose interval lies in [250, 2000] sets
  the estimate of the tapped deck to the rounded value of 60000 / interval, leaves the
  estimate of the other deck alone and stores its time.
\<close>

theorem tapTempo_spec:
  "(lastTap s = 0 \<longrightarrow> tapTempo deck now s = s\<lparr>lastTap := now\<rparr>)
   \<and> (lastTap s \<noteq> 0 \<and> (now - lastTap s < 250 \<or> now - lastTap s > 2000) \<longrightarrow>
        tapTempo deck now s = s\<lparr>lastTap := now\<rparr>)
   \<and> (lastTap s \<noteq> 0 \<and> 250 \<le> now - lastTap s \<and> now - lastTap s \<le> 2000 \<longrightarrow>
        bpm_of (tapTempo deck now s) deck = Some (of_int (round (60000 / (now - lastTap s))))
        \<and> bpm_of (tapTempo deck now s) (other deck) = bpm_of s (other deck)
        \<and> lastTap (tapTempo deck now s) = now)"
  by (cases deck) (auto simp: tapTempo_def Let_def bpm_of_def other_def)

theorem tapTempo_spec_witness:
  "tapTempo DeckA 1000 initial = initial\<lparr>lastTap := 1000\<rparr>
   \<and> tapTempo DeckA 1100 (initial\<lparr>lastTap := 1000\<rparr>) = initial\<lparr>lastTap := 1100\<rparr>
   \<and> tapTempo DeckA 4000 (initial\<lparr>lastTap := 1000\<rparr>) = initial\<lparr>lastTap := 4000\<rparr>
   \<and> bpm_of (tapTempo DeckA 1500 (initial\<lparr>lastTap := 1000\<rparr>)) DeckA = Some 120"
proof -
  have "tapTempo DeckA 1000 initial = initial\<lparr>lastTap := 1000\<rparr>"
    using tapTempo_spec [where s = initial and now = 1000 and deck = DeckA]
    by simp
  moreover have "tapTempo DeckA 1100 (initial\<lparr>lastTap := 1000\<rparr>) = initial\<lparr>lastTap := 1100\<rparr>"
    using tapTempo_spec [where s = "initial\<lparr>lastTap := 1000\<rparr>" and now = 1100 and deck = DeckA]
    by simp
  moreover have "tapTempo DeckA 4000 (initial\<lparr>lastTap := 1000\<rparr>) = initial\<lparr>lastTap := 4000\<rparr>"
    using tapTempo_spec [where s = "initial\<lparr>lastTap := 1000\<rparr>" and now = 4000 and deck = DeckA]
    by simp
  moreover have "bpm_of (tapTempo DeckA 1500 (initial\<lparr>lastTap := 1000\<rparr>)) DeckA = Some 120"
    using tapTempo_spec [where s = "initial\<lparr>lastTap := 1000\<rparr>" and now = 1500 and deck = DeckA]
    by (simp add: round_def)
  ultimately show ?thesis by blast
qed

text \<open>
  Claim C10. There is one \<^verbatim>\<open>lastTap\<close> cell for both decks: every tap, on either deck,
  stores its time in it, and a tap on a deck that follows a tap on any deck (also the
  other one) by an interval in [250, 2000] sets the estimate of its deck from that
  interval. The time of the earlier tap is not 0, the value that stands for "no tap yet".
\<close>

theorem tapTempo_shared_lastTap:
  assumes "earlier \<noteq> 0" and "250 \<le> later - earlier" and "later - earlier \<le> 2000"
  shows "bpm_of (tapTempo DeckB later (tapTempo DeckA earlier s)) DeckB
           = Some (of_int (round (60000 / (later - earlier))))
     \<and> bpm_of (tapTempo deck later (tapTempo deck' earlier s)) deck
           = Some (of_int (round (60000 / (later - earlier))))
     \<and> lastTap (tapTempo deck' earlier s) = earlier
     \<and> lastTap (tapTempo deck later (tapTempo deck' earlier s)) = later"
proof -
  have "bpm_of (tapTempo d later (tapTempo d' earlier s)) d
          = Some (of_int (round (60000 / (later - earlier))))" for d d'
    using assms
    by (cases d) (simp_all add: tapTempo_def [of _ later] Let_def bpm_of_def lastTap_tapTempo)
  then show ?thesis by (simp add: lastTap_tapTempo)
qed

theorem tapTempo_shared_lastTap_witness:
  "bpm_of (tapTempo DeckB 1500 (tapTempo DeckA 1000 initial)) DeckB = Some 120
   \<and> lastTap (tapTempo DeckA 1000 initial) = 1000"
proof -
  have h: "(1000::real) \<noteq> 0" "(250::real) \<le> 1500 - 1000" "(1500::real) - 1000 \<le> 2000"
    by simp_all
  show ?thesis
    using tapTempo_shared_lastTap [OF h, where s = initial and deck = DeckB and deck' = DeckA]
    by (simp add: round_def)
qed

text \<open>
  Claim C4, which fails as stated: \<^verbatim>\<open>setTempo\<close> has no clamp. With a transport on
  deck A, a requested rate of 2 is stored as it is.
\<close>

theorem setTempo_counterexample:
  "tempo_of (setTempo DeckA 2 loaded) DeckA = 2
   \<and> \<not> tempo_of (setTempo DeckA 2 loaded) DeckA \<le> 1.5"
  by (simp add: setTempo_def loaded_def wave_of_def set_wave_def tempo_of_def Let_def)

text \<open>
  Claim C4, amended. \<^verbatim>\<open>setTempo\<close> applies the requested value to the transport of the
  deck and stores it as the rate of the deck, unchanged; without a transport it changes
  nothing. So the rate stays in [0.6, 1.5] when the requested value lies in [0.6, 1.5].
  The clamp is in the caller \<^verbatim>\<open>syncTempo\<close>, after which the rate is in [0.6, 1.5] again.
\<close>

theorem setTempo_stores_request:
  "(wave_of s deck = Some w \<longrightarrow>
      tempo_of (setTempo deck v s) deck = v
      \<and> wave_of (setTempo deck v s) deck = Some (w\<lparr>playbackRate := v\<rparr>))
   \<and> (wave_of s deck = None \<longrightarrow> setTempo deck v s = s)
   \<and> (0.6 \<le> tempo_of s deck \<and> tempo_of s deck \<le> 1.5 \<and> 0.6 \<le> v \<and> v \<le> 1.5 \<longrightarrow>
        0.6 \<le> tempo_of (setTempo deck v s) deck \<and> tempo_of (setTempo deck v s) deck \<le> 1.5)
   \<and> (0.6 \<le> tempo_of s deck \<and> tempo_of s deck \<le> 1.5 \<longrightarrow>
        0.6 \<le> tempo_of (syncTempo deck s) deck \<and> tempo_of (syncTempo deck s) deck \<le> 1.5)"
proof (cases "wave_of s deck")
  case None
  then show ?thesis using syncTempo_in_range [of s deck] by (simp add: setTempo_None)
next
  case (Some w')
  then show ?thesis using syncTempo_in_range [of s deck] by (simp add: setTempo_Some)
qed

theorem setTempo_stores_request_witness:
  "tempo_of (setTempo DeckA 1.25 loaded) DeckA = 1.25
   \<and> wave_of (setTempo DeckA 1.25 loaded) DeckA = Some (deck0\<lparr>playbackRate := 1.25\<rparr>)
   \<and> setTempo DeckA 1.25 initial = initial
   \<and> tempo_of (syncTempo DeckA loaded) DeckA \<le> 1.5"
proof -
  have a: "wave_of loaded DeckA = Some deck0" "wave_of initial DeckA = None"
    by (simp_all add: wave_of_def loaded_def)
  have b: "0.6 \<le> tempo_of loaded DeckA \<and> tempo_of loaded DeckA \<le> 1.5"
    by (simp add: tempo_of_def loaded_def initial_def)
  show ?thesis
    using setTempo_stores_request [where s = loaded and deck = DeckA and w = deck0 and v = "1.25"]
      setTempo_stores_request [where s = initial and deck = DeckA and v = "1.25"] a b
    by blast
qed

text \<open>
  Claim C6. With a transport on deck X and both estimates known (and not 0, which the
  code reads as unknown), \<^verbatim>\<open>syncTempo\<close> on X sets the rate of X, in the cell and on the
  transport, to BPM(Y) / BPM(X) clamped to [0.6, 1.5], Y being the other deck. When one of
  the two estimates is \<^verbatim>\<open>null\<close> the call changes nothing.
\<close>

theorem syncTempo_spec:
  "(wave_of s deck = Some w \<and> bpm_of s deck = Some bx \<and> bpm_of s (other deck) = Some bo
      \<and> bx \<noteq> 0 \<and> bo \<noteq> 0 \<longrightarrow>
      tempo_of (syncTempo deck s) deck = min 1.5 (max 0.6 (bo / bx))
      \<and> wave_of (syncTempo deck s) deck = Some (w\<lparr>playbackRate := min 1.5 (max 0.6 (bo / bx))\<rparr>))
   \<and> (bpm_of s deck = None \<or> bpm_of s (other deck) = None \<longrightarrow> syncTempo deck s = s)"
  by (auto simp: syncTempo_def Let_def falsy_def setTempo_Some)

theorem syncTempo_spec_witness:
  "tempo_of (syncTempo DeckB (loaded\<lparr>bpmA := Some 120, bpmB := Some 150\<rparr>)) DeckB = 0.8
   \<and> syncTempo DeckB (loaded\<lparr>bpmA := Some 120\<rparr>) = loaded\<lparr>bpmA := Some 120\<rparr>"
proof -
  let ?s = "loaded\<lparr>bpmA := Some 120, bpmB := Some 150\<rparr>"
  have a: "wave_of ?s DeckB = Some deck0 \<and> bpm_of ?s DeckB = Some 150
      \<and> bpm_of ?s (other DeckB) = Some 120 \<and> (150::real) \<noteq> 0 \<and> (120::real) \<noteq> 0"
    by (simp add: wave_of_def bpm_of_def other_def loaded_def)
  have b: "bpm_of (loaded\<lparr>bpmA := Some 120\<rparr>) DeckB = None"
    by (simp add: bpm_of_def loaded_def)
  have "tempo_of (syncTempo DeckB ?s) DeckB = min 1.5 (max 0.6 (120 / 150))"
    using syncTempo_spec [where s = ?s and deck = DeckB and w = deck0 and bx = 150 and bo = 120] a
    by blast
  moreover have "syncTempo DeckB (loaded\<lparr>bpmA := Some 120\<rparr>) = loaded\<lparr>bpmA := Some 120\<rparr>"
    using syncTempo_spec [where s = "loaded\<lparr>bpmA := Some 120\<rparr>" and deck = DeckB] b
    by blast
  ultimately show ?thesis by simp
qed

text \<open>
  \<^verbatim>\<open>togglePlay\<close> created by a render \<open>r\<close>, on a deck with a transport that is not
  playing: when \<open>r\<close> has beat-snap on and an estimate (not 0), the transport starts and its
  position becomes k beats, k being a whole number whose multiple of the beat length
  60 / BPM is nearest to the position before, clamped to [0, duration]. When the transport
  is playing, or \<open>r\<close> has beat-snap off or the estimate \<^verbatim>\<open>null\<close>, only the play state
  changes.
\<close>

lemma togglePlay_snap:
  assumes "wave_of s deck = Some w"
  shows "(\<not> isPlaying w \<and> beatSnap r \<and> bpm_of r deck = Some b \<and> b \<noteq> 0 \<longrightarrow>
          wave_of (togglePlay r deck s) deck =
            Some (w\<lparr>currentTime :=
                      max 0 (min (of_int (round (currentTime w / (60 / b))) * (60 / b)) (duration w)),
                    isPlaying := True\<rparr>)
          \<and> (\<forall>j::int. \<bar>of_int (round (currentTime w / (60 / b))) * (60 / b) - currentTime w\<bar>
                       \<le> \<bar>of_int j * (60 / b) - currentTime w\<bar>))
       \<and> (isPlaying w \<or> \<not> beatSnap r \<or> bpm_of r deck = None \<longrightarrow>
          wave_of (togglePlay r deck s) deck = Some (w\<lparr>isPlaying := \<not> isPlaying w\<rparr>))"
proof (intro conjI impI)
  assume a: "\<not> isPlaying w \<and> beatSnap r \<and> bpm_of r deck = Some b \<and> b \<noteq> 0"
  then show "wave_of (togglePlay r deck s) deck =
      Some (w\<lparr>currentTime :=
                max 0 (min (of_int (round (currentTime w / (60 / b))) * (60 / b)) (duration w)),
              isPlaying := True\<rparr>)"
    using assms by (simp add: togglePlay_def Let_def falsy_def)
  show "\<forall>j::int. \<bar>of_int (round (currentTime w / (60 / b))) * (60 / b) - currentTime w\<bar>
                  \<le> \<bar>of_int j * (60 / b) - currentTime w\<bar>"
    using a nearest_multiple [of "60 / b" "currentTime w"] by simp
next
  assume "isPlaying w \<or> \<not> beatSnap r \<or> bpm_of r deck = None"
  then show "wave_of (togglePlay r deck s) deck = Some (w\<lparr>isPlaying := \<not> isPlaying w\<rparr>)"
    using assms by (auto simp: togglePlay_def Let_def falsy_def)
qed

text \<open>
  Claim C7, which the code breaks on the MIDI path. The MIDI callback is installed by an
  effect that runs at mount and when \<^verbatim>\<open>midiMap\<close> changes, so the \<^verbatim>\<open>togglePlay\<close> that
  it calls is the one of that render. With the mapping never changed, that render is the
  first one, in which both estimates are \<^verbatim>\<open>null\<close>. Deck A stopped at 1.23 s, estimate 120,
  beat-snap on: the note-on message 60 calls \<^verbatim>\<open>togglePlay("A")\<close>, which starts the
  transport at 1.23 s; the Play button of the current render starts it at 1 s.
\<close>

theorem togglePlay_midi_stale:
  "onmidimessage DEFAULT_MIDI (Some [0x90, 60, 100]) = [Call_togglePlay DeckA]
   \<and> beatSnap (loaded\<lparr>waveARef := Some (deck0\<lparr>currentTime := 1.23\<rparr>), bpmA := Some 120\<rparr>)
   \<and> wave_of (togglePlay initial DeckA
        (loaded\<lparr>waveARef := Some (deck0\<lparr>currentTime := 1.23\<rparr>), bpmA := Some 120\<rparr>)) DeckA
     = Some (deck0\<lparr>currentTime := 1.23, isPlaying := True\<rparr>)
   \<and> wave_of (togglePlay (loaded\<lparr>waveARef := Some (deck0\<lparr>currentTime := 1.23\<rparr>), bpmA := Some 120\<rparr>)
        DeckA (loaded\<lparr>waveARef := Some (deck0\<lparr>currentTime := 1.23\<rparr>), bpmA := Some 120\<rparr>)) DeckA
     = Some (deck0\<lparr>currentTime := 1, isPlaying := True\<rparr>)"
proof -
  let ?w = "deck0\<lparr>currentTime := 1.23\<rparr>"
  let ?s = "loaded\<lparr>waveARef := Some ?w, bpmA := Some 120\<rparr>"
  have m: "onmidimessage DEFAULT_MIDI (Some [0x90, 60, 100]) = [Call_togglePlay DeckA]"
    by (simp add: onmidimessage_def note_on_calls_def control_change_calls_def call_if_def
        DEFAULT_MIDI_def Let_def)
  have b: "beatSnap ?s"
    by (simp add: loaded_def initial_def)
  have d: "max 0 (min (of_int (round (currentTime ?w / (60 / 120))) * (60 / 120)) (duration ?w))
      = (1::real)"
    by (simp add: deck0_def round_def)
  have stale: "wave_of (togglePlay initial DeckA ?s) DeckA
      = Some (deck0\<lparr>currentTime := 1.23, isPlaying := True\<rparr>)"
    by (simp add: togglePlay_def wave_of_def set_wave_def playClick_def bpm_of_def falsy_def
        initial_def loaded_def deck0_def Let_def)
  have fresh: "wave_of (togglePlay ?s DeckA ?s) DeckA
      = Some (deck0\<lparr>currentTime := 1, isPlaying := True\<rparr>)"
    using d
    by (simp add: togglePlay_def wave_of_def set_wave_def playClick_def bpm_of_def falsy_def
        initial_def loaded_def deck0_def Let_def)
  show ?thesis using m b stale fresh by blast
qed

section \<open>Properties of the MIDI dispatch\<close>

lemma length_call_if [simp]: "length (call_if c x) = (if c then 1 else 0)"
  by (simp add: call_if_def)

lemma length_note_on_calls: "length (note_on_calls m c) = count_list (note_codes m) c"
  by (simp add: note_on_calls_def note_codes_def)

lemma count_list_distinct: "distinct xs \<Longrightarrow> x \<in> set xs \<Longrightarrow> count_list xs x = 1"
  by (induction xs) (auto simp: count_list_0_iff)

text \<open>
  Claim C5, which fails as stated: the handler tests every action on its own, so a code
  shared by two actions calls two handlers. In the preset "Compact" of
  \<^verbatim>\<open>DEFAULT_PRESETS\<close> the code 40 is both \<^verbatim>\<open>fxBReverb\<close> and \<^verbatim>\<open>recordToggle\<close>.
\<close>

theorem onmidimessage_counterexample:
  "onmidimessage COMPACT_MIDI (Some [0x90, 40, 127])
     = [Call_toggleFx DeckB FxReverb, Call_toggleRecord]"
  by (simp add: onmidimessage_def Let_def note_on_calls_def call_if_def COMPACT_MIDI_def
      DEFAULT_MIDI_def)

text \<open>
  Claim C5, amended. For a message of command \<^verbatim>\<open>0x90\<close>: when data2 is 0 no handler is
  called; otherwise one handler is called for each of the eleven note-triggered actions
  (two play/pause, eight effect toggles, the record toggle) whose code is data1, in the
  order of the source. That is exactly one call when data1 is one of the eleven codes and
  the eleven codes are different from one another.
\<close>

theorem note_on_dispatch:
  assumes "status AND 0xF0 = 0x90"
  shows "(vel = 0 \<longrightarrow> onmidimessage m (Some (status # key # vel # rest)) = [])
    \<and> (vel \<noteq> 0 \<longrightarrow>
          onmidimessage m (Some (status # key # vel # rest)) = note_on_calls m (uint key)
          \<and> length (note_on_calls m (uint key)) = count_list (note_codes m) (uint key))
    \<and> (vel \<noteq> 0 \<and> uint key \<in> set (note_codes m) \<and> distinct (note_codes m) \<longrightarrow>
          length (onmidimessage m (Some (status # key # vel # rest))) = 1)"
  using assms
  by (simp add: onmidimessage_def Let_def length_note_on_calls count_list_distinct
      word_greater_zero_iff)

theorem note_on_dispatch_witness:
  "onmidimessage DEFAULT_MIDI (Some [0x90, 60, 0]) = []
   \<and> onmidimessage DEFAULT_MIDI (Some [0x90, 60, 100]) = [Call_togglePlay DeckA]
   \<and> length (onmidimessage DEFAULT_MIDI (Some [0x90, 60, 100])) = 1"
proof -
  have c: "(0x90 :: 8 word) AND 0xF0 = 0x90" by simp
  have d: "(100 :: 8 word) \<noteq> 0 \<and> uint (60 :: 8 word) \<in> set (note_codes DEFAULT_MIDI)
      \<and> distinct (note_codes DEFAULT_MIDI)"
    by (simp add: note_codes_def DEFAULT_MIDI_def)
  have e: "note_on_calls DEFAULT_MIDI (uint (60 :: 8 word)) = [Call_togglePlay DeckA]"
    by (simp add: note_on_calls_def call_if_def DEFAULT_MIDI_def)
  have "onmidimessage DEFAULT_MIDI (Some [0x90, 60, 0]) = []"
    using note_on_dispatch [OF c, where vel = 0 and key = 60 and m = DEFAULT_MIDI and rest = "[]"]
    by blast
  moreover have "onmidimessage DEFAULT_MIDI (Some [0x90, 60, 100]) = [Call_togglePlay DeckA]
      \<and> length (onmidimessage DEFAULT_MIDI (Some [0x90, 60, 100])) = 1"
    using note_on_dispatch [OF c, where vel = 100 and key = 60 and m = DEFAULT_MIDI and rest = "[]"]
      d e
    by simp
  ultimately show ?thesis by blast
qed

section \<open>Properties of the recorder\<close>

text \<open>
  Claim C9. \<^verbatim>\<open>toggleRecord\<close> while not recording, when there is no audio context
  (neither on the transport of deck A nor in \<^verbatim>\<open>audioCtxRef\<close>) or when the connection to
  the capture sink throws: the recording flag stays false, and the recorder, the chunk
  buffer and the published blob are the ones from before the call.
\<close>

theorem toggleRecord_abort:
  assumes "\<not> recording s" and "record_ac s = None \<or> \<not> connect_ok"
  shows "recording (toggleRecord connect_ok s) = False
     \<and> recorderRef (toggleRecord connect_ok s) = recorderRef s
     \<and> recordChunksRef (toggleRecord connect_ok s) = recordChunksRef s
     \<and> recordedUrl (toggleRecord connect_ok s) = recordedUrl s"
  using assms by (auto simp: toggleRecord_def Let_def split: option.splits)

theorem toggleRecord_abort_witness:
  "\<not> recording (toggleRecord True initial)
   \<and> recorderRef (toggleRecord True initial) = None
   \<and> \<not> recording (toggleRecord False loaded)
   \<and> recorderRef (toggleRecord False loaded) = None
   \<and> recording (toggleRecord True loaded)"
proof -
  have a: "\<not> recording initial" "record_ac initial = None \<or> \<not> True"
    by (simp_all add: record_ac_def)
  have b: "\<not> recording loaded" "record_ac loaded = None \<or> \<not> False"
    by (simp_all add: loaded_def)
  have c: "recorderRef initial = None" "recorderRef loaded = None"
    by (simp_all add: loaded_def)
  have d: "recording (toggleRecord True loaded)"
    by (simp add: toggleRecord_def loaded_def record_ac_def deck0_def Let_def)
  show ?thesis
    using toggleRecord_abort [OF a] toggleRecord_abort [OF b] c d by simp
qed

section \<open>Properties of the deck graph\<close>

subsection \<open>What the primitive steps change\<close>

lemma fx_of_simps [simp]:
  "fx_of (create n s) d = fx_of s d"
  "fx_of (poke h f s) d = fx_of s d"
  "fx_of (upd_nodes d' g s) d = fx_of s d"
  "fx_of (set_wave d' w s) d = fx_of s d"
  "fx_of (s\<lparr>audioCtxRef := a\<rparr>) d = fx_of s d"
  by (simp_all add: fx_of_def create_def poke_def upd_nodes_def set_wave_def split: DeckId.splits)

lemma wet_of_simps [simp]:
  "wet_of (create n s) d = wet_of s d"
  "wet_of (poke h f s) d = wet_of s d"
  "wet_of (upd_nodes d' g s) d = wet_of s d"
  "wet_of (set_wave d' w s) d = wet_of s d"
  "wet_of (s\<lparr>audioCtxRef := a\<rparr>) d = wet_of s d"
  by (simp_all add: wet_of_def create_def poke_def upd_nodes_def set_wave_def split: DeckId.splits)

lemma wave_of_simps [simp]:
  "wave_of (create n s) d = wave_of s d"
  "wave_of (poke h f s) d = wave_of s d"
  "wave_of (upd_nodes d' g s) d = wave_of s d"
  "wave_of (s\<lparr>audioCtxRef := a\<rparr>) d = wave_of s d"
  by (simp_all add: wave_of_def create_def poke_def upd_nodes_def split: DeckId.splits)

lemma nodesRef_simps [simp]:
  "nodesRef (create n s) = nodesRef s"
  "nodesRef (poke h f s) = nodesRef s"
  "nodesRef (upd_nodes d g s) = (nodesRef s)(d := g (nodesRef s d))"
  "nodesRef (set_wave d w s) = nodesRef s"
  by (simp_all add: create_def poke_def upd_nodes_def set_wave_def split: DeckId.splits)

lemma heap_simps [simp]:
  "heap (create n s) = (heap s)(nextId s \<mapsto> n)"
  "heap (poke h f s) = (heap s)(h := map_option f (heap s h))"
  "heap (upd_nodes d g s) = heap s"
  "heap (set_wave d w s) = heap s"
  by (simp_all add: create_def poke_def upd_nodes_def set_wave_def split: DeckId.splits)

lemma nextId_simps [simp]:
  "nextId (create n s) = Suc (nextId s)"
  "nextId (poke h f s) = nextId s"
  "nextId (upd_nodes d g s) = nextId s"
  "nextId (set_wave d w s) = nextId s"
  by (simp_all add: create_def poke_def upd_nodes_def set_wave_def split: DeckId.splits)

lemma audioCtxRef_simps [simp]:
  "audioCtxRef (create n s) = audioCtxRef s"
  "audioCtxRef (poke h f s) = audioCtxRef s"
  "audioCtxRef (upd_nodes d g s) = audioCtxRef s"
  "audioCtxRef (set_wave d w s) = audioCtxRef s"
  by (simp_all add: create_def poke_def upd_nodes_def set_wave_def split: DeckId.splits)

lemma heap_ext_refl [simp]: "heap_ext s s"
  by (simp add: heap_ext_def)

lemma heap_ext_trans: "heap_ext s s' \<Longrightarrow> heap_ext s' s'' \<Longrightarrow> heap_ext s s''"
  by (auto simp: heap_ext_def)

lemma slot_ok_ext: "heap_ext s s' \<Longrightarrow> slot_ok s p \<Longrightarrow> slot_ok s' p"
  by (cases p) (auto simp: heap_ext_def slot_ok_def)

lemma deck_core_ext:
  "heap_ext s s' \<Longrightarrow> nodesRef s' d = nodesRef s d \<Longrightarrow> deck_core s d \<Longrightarrow> deck_core s' d"
  by (auto simp: deck_core_def list_all_iff intro: slot_ok_ext)

lemma deck_wf_ext:
  "heap_ext s s' \<Longrightarrow> nodesRef s' d = nodesRef s d \<Longrightarrow> deck_wf s d \<Longrightarrow> deck_wf s' d"
  by (auto simp: deck_wf_def intro: deck_core_ext)

lemma setters [simp]:
  "setter (set_threshold v)" "setter (set_frequency v)" "setter (set_delayTime v)"
  "setter (set_gain v)"
  unfolding setter_def
  by (intro allI conjI; (case_tac n; simp))+

lemma has_buffer_iff: "has_buffer s h \<longleftrightarrow> (\<exists>b. heap s h = Some (ConvolverNode (Some b)))"
  by (simp add: has_buffer_def split: option.splits AudioNode.splits)

lemma class_convolver: "class_of n = CConvolver \<Longrightarrow> \<exists>b. n = ConvolverNode b"
  by (cases n) simp_all

lemma setter_buffer:
  assumes "setter f"
  shows "f n = ConvolverNode (Some b) \<longleftrightarrow> n = ConvolverNode (Some b)"
proof
  assume a: "f n = ConvolverNode (Some b)"
  then have "class_of n = CConvolver"
    using assms by (metis class_of.simps(4) setter_def)
  then obtain b' where "n = ConvolverNode b'"
    using class_convolver by blast
  then show "n = ConvolverNode (Some b)"
    using a assms by (simp add: setter_def)
next
  assume "n = ConvolverNode (Some b)"
  then show "f n = ConvolverNode (Some b)"
    using assms by (simp add: setter_def)
qed

lemma has_buffer_poke: "setter f \<Longrightarrow> has_buffer (poke h f s) k = has_buffer s k"
  by (auto simp: has_buffer_iff setter_buffer)

lemma heap_ext_poke: "setter f \<Longrightarrow> heap_ext s (poke h f s)"
  by (auto simp: heap_ext_def has_buffer_poke setter_def option.map_comp comp_def)

lemma heap_ext_misc [simp]:
  "heap_ext s (set_wave d w s)"
  "heap_ext s (s\<lparr>audioCtxRef := a\<rparr>)"
  by (auto simp: heap_ext_def has_buffer_def)

subsection \<open>Installing a node keeps the graph well-formed\<close>

lemma slot_handle_set_slot:
  "slot_handle n sl = None \<Longrightarrow>
     slot_handle (set_slot sl k n) sl' = (if sl' = sl then Some k else slot_handle n sl')"
  by (cases sl; cases sl'; simp add: map_add_def split: option.splits)

lemma mem_slots:
  "(sl, h) \<in> set (slots n) \<longleftrightarrow>
     (case sl of SEq t \<Rightarrow> (t, h) \<in> set (eq n) | _ \<Rightarrow> slot_handle n sl = Some h)"
  by (cases sl) (auto simp: slots_def opt_slot_def split: option.splits)

lemma slots_set_slot:
  "slot_handle n sl = None \<Longrightarrow> set (slots (set_slot sl k n)) = insert (sl, k) (set (slots n))"
  by (cases sl) (auto simp: slots_def opt_slot_def split: option.splits)

lemma distinct_fst_slots_set_slot:
  "slot_handle n sl = None \<Longrightarrow> distinct (map fst (slots n)) \<Longrightarrow>
     distinct (map fst (slots (set_slot sl k n)))"
  by (cases sl) (auto simp: slots_def opt_slot_def map_of_eq_None_iff image_iff split: option.splits)

lemma distinct_snd_slots_set_slot:
  "slot_handle n sl = None \<Longrightarrow> k \<notin> snd ` set (slots n) \<Longrightarrow> distinct (map snd (slots n)) \<Longrightarrow>
     distinct (map snd (slots (set_slot sl k n)))"
  by (cases sl) (auto simp: slots_def opt_slot_def image_iff split: option.splits)

lemma heap_ext_install: "heap_ext s (install d sl node s)"
  by (auto simp: heap_ext_def install_def has_buffer_def)

lemma nodesRef_install:
  "nodesRef (install d sl node s) = (nodesRef s)(d := set_slot sl (nextId s) (nodesRef s d))"
  by (simp add: install_def)

lemma deck_core_install:
  assumes "deck_core s d'" and "slot_handle (nodesRef s d) sl = None" and "node_ok sl node"
  shows "deck_core (install d sl node s) d'"
proof (cases "d' = d")
  case False
  then show ?thesis
    using assms(1) by (auto intro: deck_core_ext [OF heap_ext_install] simp: nodesRef_install)
next
  case True
  let ?n = "nodesRef s d" and ?k = "nextId s" and ?s' = "install d sl node s"
  have old: "\<forall>p \<in> set (slots ?n). slot_ok s p"
    using assms(1) True by (simp add: deck_core_def list_all_iff)
  then have fresh: "?k \<notin> snd ` set (slots ?n)"
    by (force simp: slot_ok_def)
  have new: "slot_ok ?s' (sl, ?k)"
    using assms(3) by (auto simp: slot_ok_def install_def node_ok_def has_buffer_def)
  have "\<forall>p \<in> set (slots ?n). slot_ok ?s' p"
    using old slot_ok_ext [OF heap_ext_install] by blast
  then show ?thesis
    using assms(1,2) True fresh new
    by (auto simp: deck_core_def list_all_iff nodesRef_install slots_set_slot
        distinct_fst_slots_set_slot distinct_snd_slots_set_slot)
qed

lemma paired_set_slot:
  "sl \<noteq> SDelay \<Longrightarrow> sl \<noteq> SDelayFeedback \<Longrightarrow> paired (set_slot sl k n) = paired n"
  by (cases sl) (simp_all add: paired_def)

lemma wf_install:
  assumes "wf s" and "slot_handle (nodesRef s d) sl = None" and "node_ok sl node"
    and "sl \<noteq> SDelay" and "sl \<noteq> SDelayFeedback"
  shows "wf (install d sl node s)"
proof -
  have "deck_core (install d sl node s) d'" for d'
    using assms(1-3) by (cases d') (simp_all add: wf_def deck_wf_def deck_core_install)
  moreover have "paired (nodesRef (install d sl node s) d')" for d'
    using assms(1,4,5) by (cases d') (auto simp: wf_def deck_wf_def nodesRef_install paired_set_slot)
  ultimately show ?thesis by (simp add: wf_def deck_wf_def)
qed

lemma wf_install_delay:
  assumes "wf s" and "delay (nodesRef s d) = None"
  shows "wf (install d SDelayFeedback (GainNode g) (install d SDelay (DelayNode t) s))"
proof -
  let ?s1 = "install d SDelay (DelayNode t) s"
  have fb: "delayFeedback (nodesRef s d) = None"
    using assms by (cases d) (simp_all add: wf_def deck_wf_def paired_def)
  have c1: "deck_core ?s1 d'" for d'
    using assms by (cases d') (simp_all add: wf_def deck_wf_def deck_core_install node_ok_def)
  have "slot_handle (nodesRef ?s1 d) SDelayFeedback = None"
    using fb by (simp add: nodesRef_install)
  then have "deck_core (install d SDelayFeedback (GainNode g) ?s1) d'" for d'
    using c1 by (simp add: deck_core_install node_ok_def)
  moreover have "paired (nodesRef (install d SDelayFeedback (GainNode g) ?s1) d')" for d'
    using assms(1) by (cases d') (auto simp: wf_def deck_wf_def nodesRef_install paired_def)
  ultimately show ?thesis by (simp add: wf_def deck_wf_def)
qed

lemma wf_ext: "heap_ext s s' \<Longrightarrow> nodesRef s' = nodesRef s \<Longrightarrow> wf s \<Longrightarrow> wf s'"
  by (auto simp: wf_def intro: deck_wf_ext)

lemma stable_refl [simp]: "stable s s"
  by (simp add: stable_def)

lemma stable_trans: "stable s s' \<Longrightarrow> stable s' s'' \<Longrightarrow> stable s s''"
  by (auto simp: stable_def intro: heap_ext_trans)

lemma stable_frame: "heap_ext s s' \<Longrightarrow> nodesRef s' = nodesRef s \<Longrightarrow> stable s s'"
  by (auto simp: stable_def intro: wf_ext)

lemma stable_poke: "setter f \<Longrightarrow> stable s (poke h f s)"
  by (simp add: stable_frame heap_ext_poke)

lemma stable_install:
  "slot_handle (nodesRef s d) sl = None \<Longrightarrow> node_ok sl node \<Longrightarrow> sl \<noteq> SDelay \<Longrightarrow>
     sl \<noteq> SDelayFeedback \<Longrightarrow> stable s (install d sl node s)"
  by (auto simp: stable_def heap_ext_install wf_install nodesRef_install slot_handle_set_slot)

lemma stable_install_delay:
  assumes "delay (nodesRef s d) = None"
  shows "stable s (install d SDelayFeedback (GainNode g) (install d SDelay (DelayNode t) s))"
proof -
  let ?s1 = "install d SDelay (DelayNode t) s"
  let ?s2 = "install d SDelayFeedback (GainNode g) ?s1"
  have "heap_ext s ?s2"
    by (blast intro: heap_ext_trans heap_ext_install)
  moreover have "wf ?s2" if "wf s"
    using that assms by (rule wf_install_delay)
  moreover have "slot_handle (nodesRef ?s2 d') sl = Some h"
    if "wf s" and "slot_handle (nodesRef s d') sl = Some h" for d' sl h
  proof -
    have fb: "delayFeedback (nodesRef s d) = None"
      using that(1) assms by (cases d) (simp_all add: wf_def deck_wf_def paired_def)
    show ?thesis
      using that(2) assms fb by (cases sl) (auto simp: nodesRef_install)
  qed
  ultimately show ?thesis by (simp add: stable_def)
qed

lemma ensure_as_install:
  "ensure_filter d s = (case filter_node (nodesRef s d) of Some h \<Rightarrow> s
      | None \<Rightarrow> install d SFilter (BiquadFilterNode lowpass 8000 0.6 0) s)"
  "ensure_delay d s = (case delay (nodesRef s d) of Some h \<Rightarrow> s
      | None \<Rightarrow> install d SDelayFeedback (GainNode 0.35) (install d SDelay (DelayNode 0.25) s))"
  "ensure_reverb d s = (case reverb (nodesRef s d) of Some h \<Rightarrow> s
      | None \<Rightarrow> install d SReverb (ConvolverNode (Some (Impulse 1.3 2.3))) s)"
  "ensure_gate d s = (case gate (nodesRef s d) of Some h \<Rightarrow> s
      | None \<Rightarrow> install d SGate (DynamicsCompressorNode (- 40) 12 0.003 0.2) s)"
  by (simp_all add: ensure_filter_def ensure_delay_def ensure_reverb_def ensure_gate_def install_def
      Let_def upd_nodes_def create_def fun_eq_iff split: option.splits)

lemma stable_ensure:
  "stable s (ensure_filter d s)" "stable s (ensure_delay d s)"
  "stable s (ensure_reverb d s)" "stable s (ensure_gate d s)"
  by (auto simp: ensure_as_install node_ok_def intro!: stable_install stable_install_delay
      split: option.splits)

lemma stable_audioCtx: "stable s (s\<lparr>audioCtxRef := a\<rparr>)"
  by (simp add: stable_frame)

lemma stable_ensure_all:
  "stable s (ensure_gate d (ensure_reverb d (ensure_delay d (ensure_filter d
      (s\<lparr>audioCtxRef := a\<rparr>)))))"
  by (intro stable_trans [OF _ stable_ensure(4)] stable_trans [OF _ stable_ensure(3)]
      stable_trans [OF _ stable_ensure(2)] stable_trans [OF _ stable_ensure(1)] stable_audioCtx)

lemma stable_ensureNodes: "ensureNodes d w s = Some s' \<Longrightarrow> stable s s'"
  by (auto simp: ensureNodes_def stable_ensure_all split: option.splits)

subsection \<open>\<^verbatim>\<open>applyFilters\<close> in closed form\<close>

lemma rewritten_simps [simp]:
  "fx_of (rewritten F s) d = fx_of s d"
  "wet_of (rewritten F s) d = wet_of s d"
  "wave_of (rewritten F s) d = wave_of s d"
  "nodesRef (rewritten F s) = nodesRef s"
  "nextId (rewritten F s) = nextId s"
  "audioCtxRef (rewritten F s) = audioCtxRef s"
  "heap (rewritten F s) k = map_option (F k) (heap s k)"
  by (simp_all add: rewritten_def fx_of_def wet_of_def wave_of_def split: DeckId.splits)

lemma rewritten_rewritten: "rewritten G (rewritten F s) = rewritten (\<lambda>k. G k \<circ> F k) s"
  by (simp add: rewritten_def option.map_comp)

lemma rewritten_eqI: "(\<And>k. F k = G k) \<Longrightarrow> rewritten F s = rewritten G s"
  by (simp add: rewritten_def)

lemma rewritten_idI: "(\<And>k. F k = id) \<Longrightarrow> s = rewritten F s"
  by (simp add: rewritten_def option.map_id)

lemma poke_rewritten: "poke h f s = rewritten (\<lambda>k. if k = h then f else id) s"
proof -
  have "(heap s)(h := map_option f (heap s h)) = (\<lambda>k. map_option (if k = h then f else id) (heap s k))"
    by (auto simp: fun_eq_iff option.map_id)
  then show ?thesis by (simp add: poke_def rewritten_def)
qed

lemma w_frame [simp]:
  "gate_w r d (rewritten F s) k = gate_w r d s k"
  "filter_w r d (rewritten F s) k = filter_w r d s k"
  "delay_w r d (rewritten F s) k = delay_w r d s k"
  "feedback_w r d (rewritten F s) k = feedback_w r d s k"
  by (auto simp: gate_w_def filter_w_def delay_w_def feedback_w_def)

lemma stage_gate_eq:
  "stage_gate r d (c, s) = (c @ pick (fx_of r d FxGate) (gate (nodesRef s d)), rewritten (gate_w r d s) s)"
  by (auto simp: stage_gate_def pick_def poke_rewritten gate_w_def
      intro!: rewritten_eqI rewritten_idI split: option.splits)

lemma stage_filter_eq:
  "stage_filter r d (c, s) =
     (c @ pick (fx_of r d FxFilter) (filter_node (nodesRef s d)), rewritten (filter_w r d s) s)"
  by (auto simp: stage_filter_def pick_def poke_rewritten filter_w_def
      intro!: rewritten_eqI rewritten_idI split: option.splits)

lemma stage_delay_eq:
  "stage_delay r d (c, s) =
     (c @ pick (fx_of r d FxDelay) (delay (nodesRef s d)),
      rewritten (\<lambda>k. feedback_w r d s k \<circ> delay_w r d s k) s)"
  by (auto simp: stage_delay_def pick_def poke_rewritten delay_w_def feedback_w_def
      rewritten_rewritten Let_def
      intro!: rewritten_eqI rewritten_idI split: option.splits)

lemma stage_eq_eq: "stage_eq d (c, s) = (c @ map snd (eq (nodesRef s d)), s)"
  by (simp add: stage_eq_def)

lemma stage_reverb_eq:
  "stage_reverb r d (c, s) =
     (c @ pick (fx_of r d FxReverb \<and> (\<exists>h. reverb (nodesRef s d) = Some h \<and> has_buffer s h))
            (reverb (nodesRef s d)), s)"
  by (auto simp: stage_reverb_def pick_def split: option.splits)

lemma setter_id [simp]: "setter id"
  by (simp add: setter_def)

lemma setter_w [simp]:
  "setter (gate_w r d s k)" "setter (filter_w r d s k)" "setter (delay_w r d s k)"
  "setter (feedback_w r d s k)"
  by (simp_all add: gate_w_def filter_w_def delay_w_def feedback_w_def)

lemma setter_comp: "setter f \<Longrightarrow> setter g \<Longrightarrow> setter (f \<circ> g)"
  by (simp add: setter_def)

lemma setter_writes_to [simp]: "setter (writes_to r d s k)"
  by (simp add: writes_to_def setter_comp)

lemma has_buffer_rewritten: "(\<And>k. setter (F k)) \<Longrightarrow> has_buffer (rewritten F s) h = has_buffer s h"
  by (auto simp: has_buffer_iff setter_buffer)

lemma heap_ext_rewritten: "(\<And>k. setter (F k)) \<Longrightarrow> heap_ext s (rewritten F s)"
  by (simp add: heap_ext_def has_buffer_rewritten option.map_comp comp_def setter_def)

lemma stable_rewritten: "(\<And>k. setter (F k)) \<Longrightarrow> stable s (rewritten F s)"
  by (simp add: stable_frame heap_ext_rewritten)

lemma stages_eq:
  "stage_reverb r d (stage_delay r d (stage_filter r d (stage_eq d (stage_gate r d ([], s)))))
     = (chain_for r d s, written r d s)"
proof -
  let ?c = "pick (fx_of r d FxGate) (gate (nodesRef s d)) @ map snd (eq (nodesRef s d))
     @ pick (fx_of r d FxFilter) (filter_node (nodesRef s d))
     @ pick (fx_of r d FxDelay) (delay (nodesRef s d))"
  have "rewritten (\<lambda>k. (feedback_w r d s k \<circ> delay_w r d s k) \<circ> (filter_w r d s k \<circ> gate_w r d s k)) s
      = written r d s"
    unfolding written_def by (rule rewritten_eqI) (simp add: writes_to_def fun_eq_iff)
  then have "stage_delay r d (stage_filter r d (stage_eq d (stage_gate r d ([], s)))) = (?c, written r d s)"
    by (simp add: stage_gate_eq stage_eq_eq stage_filter_eq stage_delay_eq rewritten_rewritten)
  moreover have "has_buffer (written r d s) h = has_buffer s h" for h
    by (simp add: written_def has_buffer_rewritten)
  ultimately show ?thesis
    by (simp add: stage_reverb_eq chain_for_def written_def)
qed

lemma applyFilters_eq:
  "applyFilters r d s =
     (case wave_of s d of
        None \<Rightarrow> s
      | Some w \<Rightarrow>
          (case ensureNodes d w s of
             None \<Rightarrow> s
           | Some s1 \<Rightarrow> set_wave d (w\<lparr>filters := chain_for r d s1\<rparr>) (written r d s1)))"
  by (simp add: applyFilters_def stages_eq split: option.splits)

lemma install_frame [simp]:
  "fx_of (install d' sl node s) d = fx_of s d"
  "wet_of (install d' sl node s) d = wet_of s d"
  "wave_of (install d' sl node s) d = wave_of s d"
  "audioCtxRef (install d' sl node s) = audioCtxRef s"
  by (simp_all add: install_def)

lemma ensure_frame [simp]:
  "fx_of (ensure_filter d' s) d = fx_of s d"
  "fx_of (ensure_delay d' s) d = fx_of s d"
  "fx_of (ensure_reverb d' s) d = fx_of s d"
  "fx_of (ensure_gate d' s) d = fx_of s d"
  "wet_of (ensure_filter d' s) d = wet_of s d"
  "wet_of (ensure_delay d' s) d = wet_of s d"
  "wet_of (ensure_reverb d' s) d = wet_of s d"
  "wet_of (ensure_gate d' s) d = wet_of s d"
  "wave_of (ensure_filter d' s) d = wave_of s d"
  "wave_of (ensure_delay d' s) d = wave_of s d"
  "wave_of (ensure_reverb d' s) d = wave_of s d"
  "wave_of (ensure_gate d' s) d = wave_of s d"
  "audioCtxRef (ensure_filter d' s) = audioCtxRef s"
  "audioCtxRef (ensure_delay d' s) = audioCtxRef s"
  "audioCtxRef (ensure_reverb d' s) = audioCtxRef s"
  "audioCtxRef (ensure_gate d' s) = audioCtxRef s"
  by (simp_all add: ensure_as_install split: option.splits)

lemma ensure_eq [simp]:
  "eq (nodesRef (ensure_filter d' s) d) = eq (nodesRef s d)"
  "eq (nodesRef (ensure_delay d' s) d) = eq (nodesRef s d)"
  "eq (nodesRef (ensure_reverb d' s) d) = eq (nodesRef s d)"
  "eq (nodesRef (ensure_gate d' s) d) = eq (nodesRef s d)"
  by (simp_all add: ensure_as_install nodesRef_install split: option.splits)

lemma ensured_all:
  "ensured d (ensure_gate d (ensure_reverb d (ensure_delay d (ensure_filter d s))))"
  by (simp add: ensured_def ensure_as_install nodesRef_install split: option.splits)

lemma ensureNodes_Some:
  assumes "ensureNodes d w s = Some s1"
  shows "ensured d s1" and "fx_of s1 d' = fx_of s d'" and "wet_of s1 d' = wet_of s d'"
    and "wave_of s1 d' = wave_of s d'" and "audioCtxRef s1 = backend_ac w"
    and "eq (nodesRef s1 d') = eq (nodesRef s d')" and "backend_ac w \<noteq> None"
  using assms by (auto simp: ensureNodes_def ensured_all split: option.splits)

lemma ensureNodes_ensured:
  "ensured d s \<Longrightarrow> backend_ac w = Some ac \<Longrightarrow> ensureNodes d w s = Some (s\<lparr>audioCtxRef := Some ac\<rparr>)"
  by (auto simp: ensureNodes_def ensured_def ensure_filter_def ensure_delay_def ensure_reverb_def
      ensure_gate_def)

lemma written_frame [simp]:
  "fx_of (written r d' s) d = fx_of s d"
  "wet_of (written r d' s) d = wet_of s d"
  "wave_of (written r d' s) d = wave_of s d"
  "nodesRef (written r d' s) = nodesRef s"
  "nextId (written r d' s) = nextId s"
  "audioCtxRef (written r d' s) = audioCtxRef s"
  "has_buffer (written r d' s) h = has_buffer s h"
  by (simp_all add: written_def has_buffer_rewritten)

lemma stable_written: "stable s (written r d s)"
  by (simp add: written_def stable_rewritten)

lemma stable_set_wave: "stable s (set_wave d w s)"
  by (simp add: stable_frame)

lemma stable_realize:
  "ensureNodes d w s = Some s1 \<Longrightarrow> stable s (set_wave d' w' (written r d s1))"
  by (blast intro: stable_trans stable_ensureNodes stable_written stable_set_wave)

lemma stable_applyFilters: "stable s (applyFilters r d s)"
  by (auto simp: applyFilters_eq stable_realize split: option.splits)

lemma applyFilters_frame [simp]:
  "fx_of (applyFilters r d' s) d = fx_of s d"
  "wet_of (applyFilters r d' s) d = wet_of s d"
  by (auto simp: applyFilters_eq ensureNodes_Some split: option.splits)

lemma applyFilters_eq_keys [simp]: "eq (nodesRef (applyFilters r d' s) d) = eq (nodesRef s d)"
  by (auto simp: applyFilters_eq ensureNodes_Some split: option.splits)

lemma backend_applyFilters:
  "map_option backend_ac (wave_of (applyFilters r d' s) d) = map_option backend_ac (wave_of s d)"
  by (auto simp: applyFilters_eq ensureNodes_Some split: option.splits)

subsection \<open>The chain follows the slots\<close>

lemma map_of_keys:
  "distinct (map fst xs) \<Longrightarrow> map (map_of xs) (map fst xs) = map (\<lambda>p. Some (snd p)) xs"
proof (induction xs)
  case Nil
  then show ?case by simp
next
  case (Cons p xs)
  have "map (map_of (p # xs)) (map fst xs) = map (map_of xs) (map fst xs)"
    using Cons.prems by (intro map_cong) (auto simp: rev_image_eqI)
  then show ?case using Cons by simp
qed

lemma map_fst_slots_eq: "map fst (map (\<lambda>(t, h). (SEq t, h)) xs) = map SEq (map fst xs)"
  by (induction xs) auto

lemma fst_slots_eq: "distinct (map fst (slots n)) \<Longrightarrow> distinct (map fst (eq n))"
  by (simp add: slots_def map_fst_slots_eq distinct_map [of SEq] del: map_map)

lemma chain_for_slots:
  assumes "ensured d s" and "deck_wf s d"
  shows "map Some (chain_for r d s)
    = map (slot_handle (nodesRef s d)) (stage_order (fx_of r d) (map fst (eq (nodesRef s d))))"
proof -
  let ?n = "nodesRef s d"
  have keys: "distinct (map fst (eq ?n))"
    using assms(2) by (simp add: deck_wf_def deck_core_def fst_slots_eq)
  have "\<forall>p \<in> set (slots ?n). slot_ok s p"
    using assms(2) by (simp add: deck_wf_def deck_core_def list_all_iff)
  then have buf: "reverb ?n = Some h \<Longrightarrow> has_buffer s h" for h
    by (force simp: slot_ok_def mem_slots)
  have e: "map (slot_handle ?n) (map SEq (map fst (eq ?n))) = map Some (map snd (eq ?n))"
    using map_of_keys [OF keys] by (simp add: comp_def)
  obtain hg hf hd hr where h: "gate ?n = Some hg" "filter_node ?n = Some hf" "delay ?n = Some hd"
      "reverb ?n = Some hr"
    using assms(1) by (auto simp: ensured_def)
  show ?thesis
    unfolding chain_for_def stage_order_def map_append e [symmetric]
    using h buf [OF h(4)] by (simp add: pick_def del: map_map)
qed

lemma map_snd_slots_eq: "map snd (map (\<lambda>(t, h). (SEq t, h)) xs) = map snd xs"
  by (induction xs) auto

lemma map_snd_opt_slot: "map snd (opt_slot sl ho) = pick True ho"
  by (simp add: opt_slot_def pick_def split: option.splits)

lemma distinct_picks:
  "distinct (pick True g @ E @ pick True f @ pick True d @ pick True fb @ pick True r) \<Longrightarrow>
     distinct (pick a g @ E @ pick b f @ pick c d @ pick e r)"
  by (cases g; cases f; cases d; cases fb; cases r; simp add: pick_def)

lemma distinct_chain_for:
  assumes "deck_wf s d"
  shows "distinct (chain_for r d s)"
proof -
  let ?n = "nodesRef s d"
  have "distinct (map snd (slots ?n))"
    using assms by (simp add: deck_wf_def deck_core_def)
  then have "distinct (pick True (gate ?n) @ map snd (eq ?n) @ pick True (filter_node ?n)
      @ pick True (delay ?n) @ pick True (delayFeedback ?n) @ pick True (reverb ?n))"
    by (simp only: slots_def map_append map_snd_slots_eq map_snd_opt_slot)
  then show ?thesis
    unfolding chain_for_def by (rule distinct_picks)
qed

subsection \<open>Realizing twice\<close>

lemma writes_to_idem: "writes_to r d s k (writes_to r d s k n) = writes_to r d s k n"
  by (cases n) (simp_all add: writes_to_def gate_w_def filter_w_def delay_w_def feedback_w_def)

lemma w_frame2 [simp]:
  "gate_w r d (set_wave d' w s) k = gate_w r d s k"
  "filter_w r d (set_wave d' w s) k = filter_w r d s k"
  "delay_w r d (set_wave d' w s) k = delay_w r d s k"
  "feedback_w r d (set_wave d' w s) k = feedback_w r d s k"
  "gate_w r d (s\<lparr>audioCtxRef := a\<rparr>) k = gate_w r d s k"
  "filter_w r d (s\<lparr>audioCtxRef := a\<rparr>) k = filter_w r d s k"
  "delay_w r d (s\<lparr>audioCtxRef := a\<rparr>) k = delay_w r d s k"
  "feedback_w r d (s\<lparr>audioCtxRef := a\<rparr>) k = feedback_w r d s k"
  by (auto simp: gate_w_def filter_w_def delay_w_def feedback_w_def)

lemma writes_to_frame [simp]:
  "writes_to r d (rewritten F s) k = writes_to r d s k"
  "writes_to r d (set_wave d' w s) k = writes_to r d s k"
  "writes_to r d (s\<lparr>audioCtxRef := a\<rparr>) k = writes_to r d s k"
  by (simp_all add: writes_to_def)

lemma written_idem: "written r d (written r d s) = written r d s"
  unfolding written_def
  by (simp add: rewritten_rewritten) (rule rewritten_eqI, simp add: fun_eq_iff writes_to_idem)

lemma rewritten_set_wave: "rewritten F (set_wave d' w s) = set_wave d' w (rewritten F s)"
  by (cases d') (simp_all add: rewritten_def set_wave_def)

lemma written_set_wave: "written r d (set_wave d' w s) = set_wave d' w (written r d s)"
proof -
  have "written r d (set_wave d' w s) = rewritten (writes_to r d s) (set_wave d' w s)"
    unfolding written_def by (rule rewritten_eqI) simp
  then show ?thesis by (simp add: rewritten_set_wave written_def)
qed

lemma has_buffer_frame [simp]:
  "has_buffer (set_wave d w s) h = has_buffer s h"
  "has_buffer (s\<lparr>audioCtxRef := a\<rparr>) h = has_buffer s h"
  by (simp_all add: has_buffer_def)

lemma chain_for_frame [simp]:
  "chain_for r d (written r d' s) = chain_for r d s"
  "chain_for r d (set_wave d' w s) = chain_for r d s"
  "chain_for r d (s\<lparr>audioCtxRef := a\<rparr>) = chain_for r d s"
  by (simp_all add: chain_for_def)

lemma ensured_frame [simp]:
  "ensured d (written r d' s) = ensured d s"
  "ensured d (set_wave d' w s) = ensured d s"
  by (simp_all add: ensured_def)

lemma set_wave_set_wave: "set_wave d w' (set_wave d w s) = set_wave d w' s"
  by (cases d) (simp_all add: set_wave_def)

lemma audioCtxRef_same: "audioCtxRef s = a \<Longrightarrow> s\<lparr>audioCtxRef := a\<rparr> = s"
  by simp

lemma applyFilters_idem: "applyFilters r d (applyFilters r d s) = applyFilters r d s"
proof (cases "wave_of s d")
  case None
  then show ?thesis by (simp add: applyFilters_eq)
next
  case (Some w)
  show ?thesis
  proof (cases "ensureNodes d w s")
    case None
    then show ?thesis using Some by (simp add: applyFilters_eq)
  next
    case (Some s1)
    note s1 = ensureNodes_Some [OF Some]
    let ?w' = "w\<lparr>filters := chain_for r d s1\<rparr>"
    let ?r = "set_wave d ?w' (written r d s1)"
    obtain ac where ac: "backend_ac w = Some ac"
      using s1(7) by blast
    have r: "applyFilters r d s = ?r"
      using \<open>wave_of s d = Some w\<close> Some by (simp add: applyFilters_eq)
    have "audioCtxRef ?r = Some ac"
      using s1(5) ac by simp
    then have "?r\<lparr>audioCtxRef := Some ac\<rparr> = ?r"
      by (rule audioCtxRef_same)
    moreover have "ensureNodes d ?w' ?r = Some (?r\<lparr>audioCtxRef := Some ac\<rparr>)"
      using s1(1) ac by (intro ensureNodes_ensured) simp_all
    ultimately have "ensureNodes d ?w' ?r = Some ?r"
      by simp
    then have "applyFilters r d ?r = set_wave d (?w'\<lparr>filters := chain_for r d ?r\<rparr>) (written r d ?r)"
      by (simp add: applyFilters_eq)
    also have "\<dots> = ?r"
      by (simp add: written_set_wave written_idem set_wave_set_wave)
    finally show ?thesis using r by simp
  qed
qed

subsection \<open>The parameters written\<close>

lemma slot_node:
  assumes "deck_wf s d" and "slot_handle (nodesRef s d) sl = Some h"
  shows "\<exists>node. heap s h = Some node \<and> class_of node = slot_class sl"
proof -
  have "(sl, h) \<in> set (slots (nodesRef s d))"
  proof (cases sl)
    case (SEq t)
    then show ?thesis using assms(2) by (auto simp: mem_slots dest: map_of_SomeD)
  qed (use assms(2) in \<open>simp_all add: mem_slots\<close>)
  moreover have "\<forall>p \<in> set (slots (nodesRef s d)). slot_ok s p"
    using assms(1) by (simp add: deck_wf_def deck_core_def list_all_iff)
  ultimately have "slot_ok s (sl, h)" by blast
  then show ?thesis by (auto simp: slot_ok_def)
qed

lemma class_cases:
  "class_of n = CCompressor \<Longrightarrow> \<exists>t r a rl. n = DynamicsCompressorNode t r a rl"
  "class_of n = CBiquad \<Longrightarrow> \<exists>t f q g. n = BiquadFilterNode t f q g"
  "class_of n = CDelay \<Longrightarrow> \<exists>t. n = DelayNode t"
  "class_of n = CGain \<Longrightarrow> \<exists>g. n = GainNode g"
  by (cases n; simp)+

lemma heap_written: "heap (written r d s) k = map_option (writes_to r d s k) (heap s k)"
  by (simp add: written_def)

lemma written_gate:
  assumes "deck_wf s d" and "gate (nodesRef s d) = Some h" and "fx_of r d FxGate"
  shows "\<exists>rt a rl. heap (written r d s) h
    = Some (DynamicsCompressorNode (- 50 + wet_of r d FxGate * 30) rt a rl)"
proof -
  obtain t rt a rl where "heap s h = Some (DynamicsCompressorNode t rt a rl)"
    using slot_node [OF assms(1), of SGate h] assms(2) class_cases(1) by fastforce
  then show ?thesis
    using assms(2,3)
    by (simp add: heap_written writes_to_def gate_w_def filter_w_def delay_w_def feedback_w_def)
qed

lemma written_filter:
  assumes "deck_wf s d" and "filter_node (nodesRef s d) = Some h" and "fx_of r d FxFilter"
  shows "\<exists>t q g. heap (written r d s) h
    = Some (BiquadFilterNode t (500 + wet_of r d FxFilter * 7500) q g)"
proof -
  obtain t f q g where "heap s h = Some (BiquadFilterNode t f q g)"
    using slot_node [OF assms(1), of SFilter h] assms(2) class_cases(2) by fastforce
  then show ?thesis
    using assms(2,3)
    by (simp add: heap_written writes_to_def gate_w_def filter_w_def delay_w_def feedback_w_def)
qed

lemma written_delay:
  assumes "deck_wf s d" and "delay (nodesRef s d) = Some h" and "fx_of r d FxDelay"
  shows "heap (written r d s) h = Some (DelayNode (0.05 + wet_of r d FxDelay * 0.45))"
proof -
  obtain t where "heap s h = Some (DelayNode t)"
    using slot_node [OF assms(1), of SDelay h] assms(2) class_cases(3) by fastforce
  then show ?thesis
    using assms(2,3)
    by (simp add: heap_written writes_to_def gate_w_def filter_w_def delay_w_def feedback_w_def)
qed

lemma written_feedback:
  assumes "deck_wf s d" and "delay (nodesRef s d) = Some h" and "fx_of r d FxDelay"
  shows "\<exists>fb. delayFeedback (nodesRef s d) = Some fb
    \<and> heap (written r d s) fb = Some (GainNode (0.1 + wet_of r d FxDelay * 0.6))"
proof -
  obtain fb where fb: "delayFeedback (nodesRef s d) = Some fb"
    using assms(1,2) by (auto simp: deck_wf_def paired_def)
  obtain g where "heap s fb = Some (GainNode g)"
    using slot_node [OF assms(1), of SDelayFeedback fb] fb class_cases(4) by fastforce
  then show ?thesis
    using assms(2,3) fb
    by (simp add: heap_written writes_to_def gate_w_def filter_w_def delay_w_def feedback_w_def)
qed

subsection \<open>\<^verbatim>\<open>setEQ\<close>\<close>

lemma setEQ_eq:
  "setEQ d t v s =
     Inr (case wave_of s d of
            None \<Rightarrow> s
          | Some w \<Rightarrow>
              (case ensureNodes d w s of
                 None \<Rightarrow> s
               | Some s1 \<Rightarrow>
                   applyFilters s d (poke (eq_handle d t s1) (set_gain v) (eq_installed d t s1))))"
proof (cases "wave_of s d")
  case None
  then show ?thesis by (simp add: setEQ_def)
next
  case (Some w)
  show ?thesis
  proof (cases "ensureNodes d w s")
    case None
    then show ?thesis using Some by (simp add: setEQ_def)
  next
    case s1: (Some s1)
    obtain ac where ac: "audioCtxRef s1 = Some ac"
      using ensureNodes_Some(5,7) [OF s1] by auto
    have "upd_nodes d (\<lambda>n. n\<lparr>eq := eq n @ [(t, nextId s1)]\<rparr>) (create (eq_node t) s1)
        = install d (SEq t) (eq_node t) s1"
      by (simp add: install_def upd_nodes_def)
    then show ?thesis
      using Some s1 ac
      by (simp add: setEQ_def createEQFilter_def eq_installed_def eq_handle_def Let_def
          eq_node_def [symmetric] split: option.splits)
  qed
qed

lemma stable_eq_installed: "stable s (eq_installed d t s)"
  by (auto simp: eq_installed_def eq_node_def node_ok_def intro!: stable_install split: option.splits)

lemma eq_installed_frame [simp]:
  "fx_of (eq_installed d' t s) d = fx_of s d"
  "wet_of (eq_installed d' t s) d = wet_of s d"
  "wave_of (eq_installed d' t s) d = wave_of s d"
  by (simp_all add: eq_installed_def split: option.splits)

lemma eq_installed_keys:
  "keys d (eq_installed d' t s) = (if d = d' then touch (keys d s) t else keys d s)"
proof (cases "map_of (eq (nodesRef s d')) t")
  case None
  then have "t \<notin> set (map fst (eq (nodesRef s d')))"
    by (simp add: map_of_eq_None_iff)
  then show ?thesis
    using None by (auto simp: keys_def touch_def eq_installed_def nodesRef_install)
next
  case (Some h)
  then have "t \<in> set (map fst (eq (nodesRef s d')))"
    by (metis map_of_eq_None_iff option.distinct(1) set_map)
  then show ?thesis
    using Some by (auto simp: keys_def touch_def eq_installed_def)
qed

lemma stable_setEQ_step:
  assumes "ensureNodes d w s = Some s1"
  shows "stable s (applyFilters r d (poke h (set_gain v) (eq_installed d t s1)))"
proof -
  have "stable s s1" using assms by (rule stable_ensureNodes)
  moreover have "stable s1 (eq_installed d t s1)" by (rule stable_eq_installed)
  moreover have "stable (eq_installed d t s1) (poke h (set_gain v) (eq_installed d t s1))"
    by (simp add: stable_poke)
  ultimately show ?thesis
    by (blast intro: stable_trans stable_applyFilters)
qed

lemma stable_setEQ: "setEQ d t v s = Inr s' \<Longrightarrow> stable s s'"
  by (auto simp: setEQ_eq stable_setEQ_step split: option.splits)

lemma keys_frame [simp]:
  "keys d (applyFilters r d' s) = keys d s"
  "keys d (poke h f s) = keys d s"
  "keys d (fx_effect s) = keys d s"
  by (simp_all add: keys_def fx_effect_def)

lemma keys_setEQ:
  assumes "setEQ d' t v s = Inr s'" and "wave_of s d' = Some w" and "backend_ac w = Some ac"
  shows "keys d s' = (if d = d' then touch (keys d s) t else keys d s)"
proof -
  obtain s1 where s1: "ensureNodes d' w s = Some s1"
    using assms(3) by (simp add: ensureNodes_def)
  have k: "keys x s1 = keys x s" for x
    using ensureNodes_Some(6) [OF s1] by (simp add: keys_def)
  have "s' = applyFilters s d' (poke (eq_handle d' t s1) (set_gain v) (eq_installed d' t s1))"
    using assms(1,2) s1 by (simp add: setEQ_eq)
  then show ?thesis
    by (simp add: eq_installed_keys k)
qed

lemma keys_setEQ_idle:
  assumes "setEQ d' t v s = Inr s'" and "d \<noteq> d'"
  shows "keys d s' = keys d s"
proof (cases "wave_of s d'")
  case None
  then show ?thesis using assms(1) by (simp add: setEQ_eq)
next
  case (Some w)
  show ?thesis
  proof (cases "ensureNodes d' w s")
    case None
    then show ?thesis using assms(1) Some by (simp add: setEQ_eq)
  next
    case s1: (Some s1)
    have k: "keys d s1 = keys d s"
      using ensureNodes_Some(6) [OF s1] by (simp add: keys_def)
    have "s' = applyFilters s d' (poke (eq_handle d' t s1) (set_gain v) (eq_installed d' t s1))"
      using assms(1) Some s1 by (simp add: setEQ_eq)
    then show ?thesis
      using assms(2) by (simp add: eq_installed_keys k)
  qed
qed

lemma setEQ_frame:
  assumes "setEQ d' t v s = Inr s'"
  shows "fx_of s' d = fx_of s d" and "wet_of s' d = wet_of s d"
    and "map_option backend_ac (wave_of s' d) = map_option backend_ac (wave_of s d)"
  using assms
  by (auto simp: setEQ_eq ensureNodes_Some backend_applyFilters split: option.splits)

subsection \<open>Histories\<close>

lemma ready_backend:
  "map_option backend_ac (wave_of s' d) = map_option backend_ac (wave_of s d) \<Longrightarrow>
     ready d s' = ready d s"
  by (cases "wave_of s d"; cases "wave_of s' d") (auto simp: ready_def)

lemma toggle_frame [simp]:
  "nodesRef (toggleFx d k s) = nodesRef s"
  "heap (toggleFx d k s) = heap s"
  "nextId (toggleFx d k s) = nextId s"
  "wave_of (toggleFx d k s) d' = wave_of s d'"
  "nodesRef (setWet d k v s) = nodesRef s"
  "heap (setWet d k v s) = heap s"
  "nextId (setWet d k v s) = nextId s"
  "wave_of (setWet d k v s) d' = wave_of s d'"
  by (simp_all add: toggleFx_def setWet_def wave_of_def split: DeckId.splits)

lemma stable_toggle: "stable s (toggleFx d k s)" "stable s (setWet d k v s)"
  by (simp_all add: stable_frame heap_ext_def has_buffer_def)

lemma stable_fx_effect: "stable s (fx_effect s)"
  unfolding fx_effect_def by (blast intro: stable_trans stable_applyFilters)

lemma fx_effect_frame:
  "map_option backend_ac (wave_of (fx_effect s) d) = map_option backend_ac (wave_of s d)"
  "fx_of (fx_effect s) d = fx_of s d"
  by (simp_all add: fx_effect_def backend_applyFilters)

lemma keys_toggle [simp]: "keys d (toggleFx d' k s) = keys d s" "keys d (setWet d' k v s) = keys d s"
  by (simp_all add: keys_def)

lemma step_props:
  assumes "wf s" and "ready d s"
  shows "\<exists>s'. step s op = Inr s' \<and> wf s' \<and> ready d s' \<and> keys d s' = touched d (keys d s) op"
proof (cases op)
  case (ToggleFx d' k)
  have "stable s (fx_effect (toggleFx d' k s))"
    by (blast intro: stable_trans stable_toggle stable_fx_effect)
  then have "wf (fx_effect (toggleFx d' k s))"
    using assms(1) by (simp add: stable_def)
  moreover have "ready d (fx_effect (toggleFx d' k s))"
    using assms(2) ready_backend [of "fx_effect (toggleFx d' k s)" d s]
    by (simp add: fx_effect_frame)
  ultimately show ?thesis using ToggleFx by simp
next
  case (SetWet d' k v)
  have "stable s (fx_effect (setWet d' k v s))"
    by (blast intro: stable_trans stable_toggle stable_fx_effect)
  then have "wf (fx_effect (setWet d' k v s))"
    using assms(1) by (simp add: stable_def)
  moreover have "ready d (fx_effect (setWet d' k v s))"
    using assms(2) ready_backend [of "fx_effect (setWet d' k v s)" d s]
    by (simp add: fx_effect_frame)
  ultimately show ?thesis using SetWet by simp
next
  case (SetEQ d' t v)
  obtain s' where s': "setEQ d' t v s = Inr s'"
    by (simp add: setEQ_eq)
  have "wf s'"
    using stable_setEQ [OF s'] assms(1) by (simp add: stable_def)
  moreover have "ready d s'"
    using assms(2) ready_backend [OF setEQ_frame(3) [OF s']] by simp
  moreover have "keys d s' = (if d' = d then touch (keys d s) t else keys d s)"
  proof (cases "d' = d")
    case True
    obtain w ac where "wave_of s d' = Some w" "backend_ac w = Some ac"
      using assms(2) True by (auto simp: ready_def)
    then show ?thesis
      using keys_setEQ [OF s', of w ac d] True by simp
  next
    case False
    then show ?thesis using keys_setEQ_idle [OF s', of d] by auto
  qed
  ultimately show ?thesis using SetEQ s' by simp
qed

lemma filter_touch:
  "ks @ filter (\<lambda>x. x \<notin> set ks) (t # removeAll t xs)
     = touch ks t @ filter (\<lambda>x. x \<notin> set (touch ks t)) xs"
  by (auto simp: touch_def removeAll_filter_not_eq intro: filter_cong)

lemma first_touch_step:
  "ks @ filter (\<lambda>x. x \<notin> set ks) (first_touch (t # ts))
     = touch ks t @ filter (\<lambda>x. x \<notin> set (touch ks t)) (first_touch ts)"
  by (simp only: first_touch.simps filter_touch)

lemma run_props:
  assumes "wf s" and "ready d s"
  shows "\<exists>s'. run s ops = Inr s' \<and> wf s' \<and> ready d s'
     \<and> keys d s' = keys d s @ filter (\<lambda>t. t \<notin> set (keys d s)) (first_touch (eq_touches d ops))"
  using assms
proof (induction ops arbitrary: s)
  case Nil
  then show ?case by simp
next
  case (Cons op ops)
  obtain s1 where s1: "step s op = Inr s1" "wf s1" "ready d s1" "keys d s1 = touched d (keys d s) op"
    using step_props [OF Cons.prems] by blast
  obtain s' where s': "run s1 ops = Inr s'" "wf s'" "ready d s'"
    "keys d s' = keys d s1 @ filter (\<lambda>t. t \<notin> set (keys d s1)) (first_touch (eq_touches d ops))"
    using Cons.IH [OF s1(2,3)] by blast
  have "keys d s1 @ filter (\<lambda>t. t \<notin> set (keys d s1)) (first_touch (eq_touches d ops))
      = keys d s @ filter (\<lambda>t. t \<notin> set (keys d s)) (first_touch (eq_touches d (op # ops)))"
    unfolding s1(4) by (cases op) (simp_all add: first_touch_step del: first_touch.simps)
  then show ?case using s1(1) s' by simp
qed

lemma stable_slot:
  assumes "stable s s'" and "wf s" and "slot_handle (nodesRef s d) sl = Some h"
  shows "slot_handle (nodesRef s' d) sl = Some h
    \<and> map_option class_of (heap s' h) = map_option class_of (heap s h) \<and> wf s'"
proof -
  have "deck_wf s d" using assms(2) by (cases d) (simp_all add: wf_def)
  have "(sl, h) \<in> set (slots (nodesRef s d))"
  proof (cases sl)
    case (SEq t)
    then show ?thesis using assms(3) by (auto simp: mem_slots dest: map_of_SomeD)
  qed (use assms(3) in \<open>simp_all add: mem_slots\<close>)
  moreover have "\<forall>p \<in> set (slots (nodesRef s d)). slot_ok s p"
    using \<open>deck_wf s d\<close> by (simp add: deck_wf_def deck_core_def list_all_iff)
  ultimately have "h < nextId s" by (force simp: slot_ok_def)
  then show ?thesis
    using assms by (simp add: stable_def heap_ext_def)
qed

lemma realized:
  assumes "wf s" and "wave_of s d = Some w" and "backend_ac w = Some ac"
  shows "\<exists>s1. ensureNodes d w s = Some s1 \<and> wf s1 \<and> ensured d s1
      \<and> applyFilters r d s = set_wave d (w\<lparr>filters := chain_for r d s1\<rparr>) (written r d s1)
      \<and> fx_of s1 d = fx_of s d \<and> wet_of s1 d = wet_of s d \<and> keys d s1 = keys d s"
proof -
  obtain s1 where s1: "ensureNodes d w s = Some s1"
    using assms(3) by (simp add: ensureNodes_def)
  have "wf s1"
    using stable_ensureNodes [OF s1] assms(1) by (simp add: stable_def)
  then show ?thesis
    using s1 assms(2) ensureNodes_Some [OF s1] by (simp add: applyFilters_eq keys_def)
qed

lemma applyFilters_chain:
  assumes "wf s" and "wave_of s d = Some w" and "backend_ac w = Some ac"
  shows "\<exists>c. wave_of (applyFilters r d s) d = Some (w\<lparr>filters := c\<rparr>)
      \<and> map Some c = map (slot_handle (nodesRef (applyFilters r d s) d))
                         (stage_order (fx_of r d) (keys d s))
      \<and> distinct c"
proof -
  obtain s1 where s1: "wf s1" "ensured d s1"
      "applyFilters r d s = set_wave d (w\<lparr>filters := chain_for r d s1\<rparr>) (written r d s1)"
      "fx_of s1 d = fx_of s d" "keys d s1 = keys d s"
    using realized [OF assms] by blast
  have wfd: "deck_wf s1 d" using s1(1) by (cases d) (simp_all add: wf_def)
  have "map Some (chain_for r d s1)
      = map (slot_handle (nodesRef s1 d)) (stage_order (fx_of r d) (keys d s))"
    using chain_for_slots [OF s1(2) wfd] s1(4,5) by (simp add: keys_def)
  then show ?thesis
    using s1(3) distinct_chain_for [OF wfd] by (intro exI [of _ "chain_for r d s1"]) simp
qed

lemma wf_loaded: "wf loaded"
  by (simp add: wf_def deck_wf_def deck_core_def paired_def slots_def opt_slot_def loaded_def
      initial_def)

lemma loaded_fields [simp]:
  "wave_of loaded d = Some deck0" "backend_ac deck0 = Some (AudioContext 0)"
  "eq (nodesRef loaded d) = []"
  by (cases d; simp add: loaded_def initial_def wave_of_def deck0_def)+

lemma realized_A_gate: "slot_handle (nodesRef realized_A DeckA) SGate = Some 5"
  by (simp add: realized_A_def loaded_def initial_def deck0_def wave_of_def ensureNodes_def
      ensure_filter_def ensure_delay_def ensure_reverb_def ensure_gate_def upd_nodes_def create_def
      poke_def applyFilters_def stage_gate_def stage_eq_def stage_filter_def
      stage_delay_def stage_reverb_def fx_of_def wet_of_def set_wave_def Let_def has_buffer_def)

lemma wf_realized_A: "wf realized_A"
  using stable_applyFilters [of loaded loaded DeckA] wf_loaded
  by (simp add: stable_def realized_A_def)

subsection \<open>Every handler keeps the graph well-formed\<close>

lemma wf_initial: "wf initial"
  by (simp add: wf_def deck_wf_def deck_core_def paired_def slots_def opt_slot_def initial_def)

lemma stable_playClick: "stable s (playClick s)"
  by (rule stable_frame) (auto simp: playClick_def heap_ext_def has_buffer_def split: option.splits)

lemma stable_tapTempo: "stable s (tapTempo d now s)"
  by (rule stable_frame)
     (auto simp: tapTempo_def playClick_def Let_def heap_ext_def has_buffer_def
       split: option.splits DeckId.splits)

lemma stable_setTempo: "stable s (setTempo d v s)"
  by (rule stable_frame)
     (auto simp: setTempo_def Let_def heap_ext_def has_buffer_def
       split: option.splits DeckId.splits)

lemma stable_syncTempo: "stable s (syncTempo d s)"
  unfolding syncTempo_def Let_def
  by (auto intro: stable_trans [OF stable_setTempo stable_playClick])

lemma stable_togglePlay: "stable s (togglePlay r d s)"
  unfolding togglePlay_def Let_def
  by (auto split: option.splits intro: stable_trans [OF stable_set_wave stable_playClick])

lemma stable_toggleRecord: "stable s (toggleRecord ok s)"
  by (rule stable_frame)
     (auto simp: toggleRecord_def playClick_def stop_recorder_def Let_def heap_ext_def has_buffer_def
       split: option.splits)

lemma stable_step: "step s op = Inr s' \<Longrightarrow> stable s s'"
  by (cases op) (auto intro: stable_trans stable_toggle stable_fx_effect stable_setEQ)

lemma stable_run: "run s ops = Inr s' \<Longrightarrow> stable s s'"
proof (induction ops arbitrary: s)
  case Nil
  then show ?case by simp
next
  case (Cons op ops)
  then show ?case
    by (auto split: sum.splits intro: stable_trans stable_step)
qed

subsection \<open>The claims about the chain\<close>

text \<open>
  Claim C1, which fails as stated: the EQ stages are chained in the order in which
  \<^verbatim>\<open>setEQ\<close> created them (the insertion order of the \<^verbatim>\<open>eq\<close> object), not in the
  order low, mid, high. After the high knob and then the low knob have been turned, the
  high-shelf stage precedes the low-shelf stage.
\<close>

theorem chain_counterexample:
  "(case run loaded [SetEQ DeckA highshelf 3, SetEQ DeckA lowshelf 2] of
      Inr s \<Rightarrow> map (heap s) (filters (the (waveARef s)))
    | Inl e \<Rightarrow> [])
   = [Some (BiquadFilterNode highshelf 6000 1 3), Some (BiquadFilterNode lowshelf 150 1 2)]"
  by (simp add: loaded_def initial_def deck0_def setEQ_def wave_of_def ensureNodes_def
      ensure_filter_def ensure_delay_def ensure_reverb_def ensure_gate_def upd_nodes_def create_def
      poke_def createEQFilter_def applyFilters_def stage_gate_def stage_eq_def stage_filter_def
      stage_delay_def stage_reverb_def fx_of_def wet_of_def set_wave_def Let_def has_buffer_def)

text \<open>
  Claim C1, amended. From a well-formed state in which the deck has a transport with an
  audio context and no EQ stage yet, every history of effect toggles, wet changes and EQ
  changes runs without error, and the chain that \<^verbatim>\<open>applyFilters\<close> then gives to the
  transport is made of the handles of: the gate if it is enabled, the EQ stages in the
  order in which the history first touched them, the resonant filter if enabled, the delay
  if enabled, the reverb if enabled. A disabled effect is not in the chain, no stage is in
  it twice, and the order depends on the effect flags at the end and on the order of the
  first EQ touches only.
\<close>

theorem chain_order:
  assumes "wf s" and "wave_of s deck = Some w" and "backend_ac w = Some ac"
    and "eq (nodesRef s deck) = []"
  shows "\<exists>s' w'. run s ops = Inr s'
      \<and> wave_of (applyFilters s' deck s') deck = Some w'
      \<and> map Some (filters w')
          = map (slot_handle (nodesRef (applyFilters s' deck s') deck))
              (stage_order (fx_of s' deck) (first_touch (eq_touches deck ops)))
      \<and> distinct (filters w')"
proof -
  have "ready deck s" using assms(2,3) by (auto simp: ready_def)
  then obtain s' where s': "run s ops = Inr s'" "wf s'" "ready deck s'"
      "keys deck s' = keys deck s
         @ filter (\<lambda>t. t \<notin> set (keys deck s)) (first_touch (eq_touches deck ops))"
    using run_props [OF assms(1)] by blast
  have k: "keys deck s' = first_touch (eq_touches deck ops)"
    using s'(4) assms(4) by (simp add: keys_def)
  obtain w1 ac1 where w1: "wave_of s' deck = Some w1" "backend_ac w1 = Some ac1"
    using s'(3) by (auto simp: ready_def)
  obtain c where c: "wave_of (applyFilters s' deck s') deck = Some (w1\<lparr>filters := c\<rparr>)"
      "map Some c = map (slot_handle (nodesRef (applyFilters s' deck s') deck))
                      (stage_order (fx_of s' deck) (keys deck s'))"
      "distinct c"
    using applyFilters_chain [OF s'(2) w1, of s'] by blast
  show ?thesis
    using s'(1) c k by (intro exI [of _ s'] exI [of _ "w1\<lparr>filters := c\<rparr>"]) simp
qed

theorem chain_order_witness:
  "\<exists>s' w'. run loaded [SetEQ DeckA highshelf 3, ToggleFx DeckA FxDelay, SetEQ DeckA lowshelf 2,
               ToggleFx DeckA FxGate, SetEQ DeckA highshelf 1] = Inr s'
      \<and> wave_of (applyFilters s' DeckA s') DeckA = Some w'
      \<and> map Some (filters w')
          = map (slot_handle (nodesRef (applyFilters s' DeckA s') DeckA))
              (stage_order (fx_of s' DeckA) [highshelf, lowshelf])
      \<and> distinct (filters w')"
proof -
  let ?ops = "[SetEQ DeckA highshelf 3, ToggleFx DeckA FxDelay, SetEQ DeckA lowshelf 2,
               ToggleFx DeckA FxGate, SetEQ DeckA highshelf 1]"
  have e: "first_touch (eq_touches DeckA ?ops) = [highshelf, lowshelf]"
    by simp
  show ?thesis
    using chain_order [OF wf_loaded loaded_fields(1) loaded_fields(2) loaded_fields(3),
        where deck = DeckA and ops = ?ops]
    unfolding e .
qed

text \<open>
  Claim C2. In a well-formed state, for a deck whose transport has an audio context,
  \<^verbatim>\<open>applyFilters\<close> leaves every enabled stage in the chain with its parameter written
  from the wet amount: gate threshold - 50 + wet * 30, filter frequency 500 + wet * 7500,
  delay time 0.05 + wet * 0.45 and feedback gain 0.1 + wet * 0.6. This holds for every
  wet amount, in [0, 1] or not.
\<close>

theorem realized_parameters:
  assumes "wf s" and "wave_of s deck = Some w" and "backend_ac w = Some ac"
  shows "\<exists>w'. wave_of (applyFilters s deck s) deck = Some w'
     \<and> (fx_of s deck FxGate \<longrightarrow>
          (\<exists>h r a rl. gate (nodesRef (applyFilters s deck s) deck) = Some h \<and> h \<in> set (filters w')
             \<and> heap (applyFilters s deck s) h
                 = Some (DynamicsCompressorNode (- 50 + wet_of s deck FxGate * 30) r a rl)))
     \<and> (fx_of s deck FxFilter \<longrightarrow>
          (\<exists>h t q g. filter_node (nodesRef (applyFilters s deck s) deck) = Some h
             \<and> h \<in> set (filters w')
             \<and> heap (applyFilters s deck s) h
                 = Some (BiquadFilterNode t (500 + wet_of s deck FxFilter * 7500) q g)))
     \<and> (fx_of s deck FxDelay \<longrightarrow>
          (\<exists>h fb. delay (nodesRef (applyFilters s deck s) deck) = Some h \<and> h \<in> set (filters w')
             \<and> heap (applyFilters s deck s) h
                 = Some (DelayNode (0.05 + wet_of s deck FxDelay * 0.45))
             \<and> delayFeedback (nodesRef (applyFilters s deck s) deck) = Some fb
             \<and> heap (applyFilters s deck s) fb
                 = Some (GainNode (0.1 + wet_of s deck FxDelay * 0.6))))"
proof -
  obtain s1 where s1: "wf s1" "ensured deck s1"
      "applyFilters s deck s = set_wave deck (w\<lparr>filters := chain_for s deck s1\<rparr>) (written s deck s1)"
    using realized [OF assms, of s] by blast
  have wfd: "deck_wf s1 deck" using s1(1) by (cases deck) (simp_all add: wf_def)
  obtain hg hf hd where h: "gate (nodesRef s1 deck) = Some hg"
      "filter_node (nodesRef s1 deck) = Some hf" "delay (nodesRef s1 deck) = Some hd"
    using s1(2) by (auto simp: ensured_def)
  have g: "fx_of s deck FxGate \<Longrightarrow> hg \<in> set (chain_for s deck s1)
      \<and> (\<exists>r a rl. heap (written s deck s1) hg
            = Some (DynamicsCompressorNode (- 50 + wet_of s deck FxGate * 30) r a rl))"
    using written_gate [OF wfd h(1)] h(1) by (simp add: chain_for_def pick_def)
  have f: "fx_of s deck FxFilter \<Longrightarrow> hf \<in> set (chain_for s deck s1)
      \<and> (\<exists>t q g. heap (written s deck s1) hf
            = Some (BiquadFilterNode t (500 + wet_of s deck FxFilter * 7500) q g))"
    using written_filter [OF wfd h(2)] h(2) by (simp add: chain_for_def pick_def)
  have d: "fx_of s deck FxDelay \<Longrightarrow> hd \<in> set (chain_for s deck s1)
      \<and> heap (written s deck s1) hd = Some (DelayNode (0.05 + wet_of s deck FxDelay * 0.45))
      \<and> (\<exists>fb. delayFeedback (nodesRef s1 deck) = Some fb
            \<and> heap (written s deck s1) fb = Some (GainNode (0.1 + wet_of s deck FxDelay * 0.6)))"
    using written_delay [OF wfd h(3)] written_feedback [OF wfd h(3)] h(3)
    by (simp add: chain_for_def pick_def)
  show ?thesis
    using g f d h by (simp add: s1(3))
qed

theorem realized_parameters_witness:
  "\<exists>w'. wave_of (applyFilters (loaded\<lparr>fxA := \<lambda>_. True\<rparr>) DeckA (loaded\<lparr>fxA := \<lambda>_. True\<rparr>)) DeckA = Some w'
     \<and> (\<exists>h r a rl. gate (nodesRef (applyFilters (loaded\<lparr>fxA := \<lambda>_. True\<rparr>) DeckA (loaded\<lparr>fxA := \<lambda>_. True\<rparr>)) DeckA) = Some h
           \<and> h \<in> set (filters w')
           \<and> heap (applyFilters (loaded\<lparr>fxA := \<lambda>_. True\<rparr>) DeckA (loaded\<lparr>fxA := \<lambda>_. True\<rparr>)) h
               = Some (DynamicsCompressorNode (- 35) r a rl))
     \<and> (\<exists>h t q g. filter_node (nodesRef (applyFilters (loaded\<lparr>fxA := \<lambda>_. True\<rparr>) DeckA (loaded\<lparr>fxA := \<lambda>_. True\<rparr>)) DeckA) = Some h
           \<and> h \<in> set (filters w')
           \<and> heap (applyFilters (loaded\<lparr>fxA := \<lambda>_. True\<rparr>) DeckA (loaded\<lparr>fxA := \<lambda>_. True\<rparr>)) h
               = Some (BiquadFilterNode t 4250 q g))
     \<and> (\<exists>h fb. delay (nodesRef (applyFilters (loaded\<lparr>fxA := \<lambda>_. True\<rparr>) DeckA (loaded\<lparr>fxA := \<lambda>_. True\<rparr>)) DeckA) = Some h
           \<and> h \<in> set (filters w')
           \<and> heap (applyFilters (loaded\<lparr>fxA := \<lambda>_. True\<rparr>) DeckA (loaded\<lparr>fxA := \<lambda>_. True\<rparr>)) h = Some (DelayNode 0.1625)
           \<and> delayFeedback (nodesRef (applyFilters (loaded\<lparr>fxA := \<lambda>_. True\<rparr>) DeckA (loaded\<lparr>fxA := \<lambda>_. True\<rparr>)) DeckA) = Some fb
           \<and> heap (applyFilters (loaded\<lparr>fxA := \<lambda>_. True\<rparr>) DeckA (loaded\<lparr>fxA := \<lambda>_. True\<rparr>)) fb = Some (GainNode 0.25))"
proof -
  let ?s = "loaded\<lparr>fxA := \<lambda>_. True\<rparr>"
  have a: "wf ?s"
    by (simp add: wf_def deck_wf_def deck_core_def paired_def slots_def opt_slot_def loaded_def
        initial_def)
  have b: "wave_of ?s DeckA = Some deck0"
    by (simp add: wave_of_def loaded_def)
  have c: "fx_of ?s DeckA = (\<lambda>_. True)"
    "wet_of ?s DeckA FxGate = 0.5" "wet_of ?s DeckA FxFilter = 0.5" "wet_of ?s DeckA FxDelay = 0.25"
    by (simp_all add: fx_of_def wet_of_def loaded_def initial_def)
  show ?thesis
    using realized_parameters [OF a b loaded_fields(2)] by (simp add: c)
qed

text \<open>
  In a well-formed state, a handle that a slot of a deck holds (gate, an EQ stage, resonant
  filter, delay, feedback gain, reverb) is still in that slot after \<^verbatim>\<open>ensureNodes\<close>,
  \<^verbatim>\<open>applyFilters\<close> and \<^verbatim>\<open>setEQ\<close> on any deck, and the node under it is of the same
  class: only its parameters may have been written. \<^verbatim>\<open>setEQ\<close> never throws. A second
  call of the \<^verbatim>\<open>applyFilters\<close> of the same render changes nothing at all, and the chain
  that \<^verbatim>\<open>applyFilters\<close> realizes has no stage twice.
\<close>

lemma handles_stable:
  assumes "wf s" and "slot_handle (nodesRef s deck') sl = Some h"
  shows "(\<forall>w s'. ensureNodes deck w s = Some s' \<longrightarrow>
            slot_handle (nodesRef s' deck') sl = Some h
            \<and> map_option class_of (heap s' h) = map_option class_of (heap s h))
     \<and> slot_handle (nodesRef (applyFilters r deck s) deck') sl = Some h
     \<and> map_option class_of (heap (applyFilters r deck s) h) = map_option class_of (heap s h)
     \<and> (\<exists>s'. setEQ deck t v s = Inr s'
            \<and> slot_handle (nodesRef s' deck') sl = Some h
            \<and> map_option class_of (heap s' h) = map_option class_of (heap s h))
     \<and> applyFilters r deck (applyFilters r deck s) = applyFilters r deck s
     \<and> (\<forall>w ac. wave_of s deck = Some w \<and> backend_ac w = Some ac \<longrightarrow>
            (\<exists>c. wave_of (applyFilters r deck s) deck = Some (w\<lparr>filters := c\<rparr>) \<and> distinct c))"
proof (intro conjI allI impI)
  fix w s'
  assume "ensureNodes deck w s = Some s'"
  then have "stable s s'" by (rule stable_ensureNodes)
  then show "slot_handle (nodesRef s' deck') sl = Some h"
    and "map_option class_of (heap s' h) = map_option class_of (heap s h)"
    using stable_slot assms by blast+
next
  show "slot_handle (nodesRef (applyFilters r deck s) deck') sl = Some h"
    and "map_option class_of (heap (applyFilters r deck s) h) = map_option class_of (heap s h)"
    using stable_slot [OF stable_applyFilters assms] by blast+
next
  obtain s' where s': "setEQ deck t v s = Inr s'"
    by (simp add: setEQ_eq)
  then show "\<exists>s'. setEQ deck t v s = Inr s'
            \<and> slot_handle (nodesRef s' deck') sl = Some h
            \<and> map_option class_of (heap s' h) = map_option class_of (heap s h)"
    using stable_slot [OF stable_setEQ assms] by blast
next
  show "applyFilters r deck (applyFilters r deck s) = applyFilters r deck s"
    by (rule applyFilters_idem)
next
  fix w ac
  assume "wave_of s deck = Some w \<and> backend_ac w = Some ac"
  then show "\<exists>c. wave_of (applyFilters r deck s) deck = Some (w\<lparr>filters := c\<rparr>) \<and> distinct c"
    using applyFilters_chain [OF assms(1), of deck w ac] by blast
qed

text \<open>
  Claim C8, which the code breaks in its last part. No handle is recreated or replaced,
  but two calls of \<^verbatim>\<open>applyFilters\<close> with the same effect state need not give the same
  chain: the \<^verbatim>\<open>ready\<close> callback of a transport is registered by the mount effect, so the
  \<^verbatim>\<open>applyFilters\<close> that it calls is the one of the first render, in which every effect
  is off. After the gate of deck A has been switched on, the effect that follows the
  render has put the gate (handle 5) in the chain, and a call from the current render
  changes nothing; when a track then becomes ready, the callback leaves the transport
  with the empty chain, while the effect state still has the gate on.
\<close>

theorem applyFilters_ready_stale:
  "fx_of (fx_effect (toggleFx DeckA FxGate loaded)) DeckA FxGate
   \<and> gate (nodesRef (fx_effect (toggleFx DeckA FxGate loaded)) DeckA) = Some 5
   \<and> map_option filters (wave_of (fx_effect (toggleFx DeckA FxGate loaded)) DeckA) = Some [5]
   \<and> map_option filters
        (wave_of (applyFilters (fx_effect (toggleFx DeckA FxGate loaded)) DeckA
                    (fx_effect (toggleFx DeckA FxGate loaded))) DeckA)
     = Some [5]
   \<and> map_option filters
        (wave_of (applyFilters initial DeckA (fx_effect (toggleFx DeckA FxGate loaded))) DeckA)
     = Some []
   \<and> fx_of (applyFilters initial DeckA (fx_effect (toggleFx DeckA FxGate loaded))) DeckA FxGate
   \<and> gate (nodesRef (applyFilters initial DeckA (fx_effect (toggleFx DeckA FxGate loaded))) DeckA)
     = Some 5"
  by (simp add: fx_effect_def toggleFx_def loaded_def initial_def deck0_def wave_of_def
      ensureNodes_def ensure_filter_def ensure_delay_def ensure_reverb_def ensure_gate_def
      upd_nodes_def create_def poke_def applyFilters_def stage_gate_def stage_eq_def
      stage_filter_def stage_delay_def stage_reverb_def fx_of_def wet_of_def set_wave_def Let_def
      has_buffer_def)

end
